theory Spec2Isabelle
  imports Complex_Main "HOL-Library.Sublist"
begin

section \<open>Data model of the backtest dashboard\<close>

text \<open>
  The dashboard script \<^verbatim>\<open>dashboard.py\<close> reads four CSV files with pandas and renders
  them. The embedding keeps the shape of the data as the script uses it:

  \<^item> a numeric cell is \<open>real option\<close>: \<open>None\<close> is the missing value (NaN), \<open>Some x\<close>
    a finite number. The arithmetic of float64 is taken as exact;
  \<^item> the index of a timeline is a timestamp, an \<open>int\<close> counting nanoseconds since the
    epoch (the files are read with \<^verbatim>\<open>index_col=0, parse_dates=True\<close>);
  \<^item> a data frame is the list of its column names and the list of its rows. A row is
    a record with one field per column of the fixed schema; the field of a column
    that is not among the column names is never read: every read of a column goes
    through \<open>getitem\<close>, which raises \<open>KeyError\<close> as pandas does;
  \<^item> every exception of the script is a value of \<open>py_error\<close>, and a fallible step
    returns \<open>py_error + 'a\<close>.
\<close>

datatype py_error = FileNotFoundError | KeyError | ValueError | IndexError | TypeError

record timeline_row =
  idx :: int
  equity :: "real option"
  volume_usd :: "real option"
  signal :: "real option"
  price :: "real option"
  qty :: "real option"
  pnl :: "real option"
  is_entry :: bool
  is_exit :: bool

record summary_row =
  period :: string
  start_date :: "int option"
  end_date :: "int option"
  rows :: "real option"
  initial_capital :: "real option"
  net_pnl :: "real option"
  total_return_pct :: "real option"
  sharpe_ratio :: "real option"
  max_drawdown_pct :: "real option"
  win_rate_pct :: "real option"
  trades_per_year :: "real option"
  avg_hold_hours :: "real option"
  total_volume_usd :: "real option"
  avg_daily_volume :: "real option"
  avg_hourly_volume :: "real option"
  actual_trades :: "real option"
  signal_flips :: "real option"

record 'r dataframe =
  columns :: "string list"
  records :: "'r list"

text \<open>\<^verbatim>\<open>df[name]\<close>: the column as a list of cells, or \<open>KeyError\<close>.\<close>

definition getitem :: "'r dataframe \<Rightarrow> string \<Rightarrow> ('r \<Rightarrow> 'c) \<Rightarrow> py_error + 'c list" where
  "getitem df name field =
     (if name \<in> set (columns df) then Inr (map field (records df)) else Inl KeyError)"

text \<open>
  The files. A file that exists is either no CSV table at all (an empty file, a line
  with too many fields, bytes that do not decode), or a table \<open>CSV df tcols\<close>. In a
  table, \<open>tcols\<close> names the columns that did not read at the type the schema gives
  them: a column with a cell that is a text and no number stays a column of texts, and
  so does a date column with a cell that \<^verbatim>\<open>pd.to_datetime\<close> does not accept. The fields
  of the rows are not read for such a column. The list matters for the three columns
  the loader computes on, \<^verbatim>\<open>start_date\<close>, \<^verbatim>\<open>end_date\<close> and \<^verbatim>\<open>equity\<close>; the cells of every
  other column are taken to read at their types.

  \<^verbatim>\<open>pd.read_csv\<close> raises \<open>FileNotFoundError\<close> on a path that does not exist and a
  \<open>ValueError\<close> (\<^verbatim>\<open>EmptyDataError\<close>, \<^verbatim>\<open>ParserError\<close>, \<^verbatim>\<open>UnicodeDecodeError\<close>) on a file
  that is no CSV table. The store is typed by the schema the reader expects: the
  summary reader consults \<open>summary_files\<close>, the timeline reader \<open>timeline_files\<close>.
\<close>

datatype 'r csv = Not_CSV | CSV "'r dataframe" "string list"

record disk =
  summary_files :: "string \<rightharpoonup> summary_row csv"
  timeline_files :: "string \<rightharpoonup> timeline_row csv"

definition read_csv ::
  "(string \<rightharpoonup> 'r csv) \<Rightarrow> string \<Rightarrow> py_error + ('r dataframe \<times> string list)" where
  "read_csv files path =
     (case files path of
        None \<Rightarrow> Inl FileNotFoundError
      | Some Not_CSV \<Rightarrow> Inl ValueError
      | Some (CSV df tcols) \<Rightarrow> Inr (df, tcols))"

section \<open>The loader\<close>

text \<open>\<^verbatim>\<open>df["equity"] > 0\<close> on one cell: a comparison with NaN is false.\<close>

definition gt_zero :: "real option \<Rightarrow> bool" where
  "gt_zero c = (case c of None \<Rightarrow> False | Some x \<Rightarrow> 0 < x)"

text \<open>
  The comparison on the whole column: on a column of texts, comparing a text with the
  number 0 raises \<open>TypeError\<close>.
\<close>

definition gt_zero_col :: "string list \<Rightarrow> string \<Rightarrow> real option list \<Rightarrow> py_error + bool list" where
  "gt_zero_col tcols name col = (if name \<in> set tcols then Inl TypeError else Inr (map gt_zero col))"

text \<open>
  \<^verbatim>\<open>Series.idxmax\<close> on a boolean series: the index label at the first position of the
  maximum, that is at the first \<open>True\<close>, or at position 0 when every entry is \<open>False\<close>;
  \<open>ValueError\<close> on an empty series.
\<close>

definition argmax :: "bool list \<Rightarrow> nat" where
  "argmax flags =
     (let k = length (takeWhile (\<lambda>b. \<not> b) flags) in if k < length flags then k else 0)"

definition idxmax :: "int list \<Rightarrow> bool list \<Rightarrow> py_error + int" where
  "idxmax labels flags = (if flags = [] then Inl ValueError else Inr (labels ! argmax flags))"

text \<open>The truth value of a pandas \<^verbatim>\<open>Timestamp\<close>: always true, as for any datetime.\<close>

definition timestamp_bool :: "int \<Rightarrow> bool" where
  "timestamp_bool t = True"

text \<open>
  \<^verbatim>\<open>df.loc[label:]\<close> for a label of the index: the rows from the first occurrence of
  the label to the end. When the label occurs again after a row with another label,
  pandas cannot turn its positions into a slice and raises \<open>KeyError\<close>. (The label
  comes from \<open>idxmax\<close>, so it is a label of the index; for a label that is not,
  the model raises \<open>KeyError\<close> too.)
\<close>

definition loc_from :: "timeline_row dataframe \<Rightarrow> int \<Rightarrow> py_error + timeline_row dataframe" where
  "loc_from df label =
     (let tail = dropWhile (\<lambda>r. idx r \<noteq> label) (records df);
          after = dropWhile (\<lambda>r. idx r = label) tail
      in if tail = [] then Inl KeyError
         else if label \<in> set (map idx after) then Inl KeyError
         else Inr (df\<lparr>records := tail\<rparr>))"

text \<open>
  Lines 22 to 26 of the script: the warm-up trim of one timeline, read with the text
  columns \<open>tcols\<close>.
\<close>

definition trim_warmup ::
  "string list \<Rightarrow> timeline_row dataframe \<Rightarrow> py_error + timeline_row dataframe" where
  "trim_warmup tcols df =
     (case getitem df ''equity'' equity of
        Inl e \<Rightarrow> Inl e
      | Inr col \<Rightarrow>
          (case gt_zero_col tcols ''equity'' col of
             Inl e \<Rightarrow> Inl e
           | Inr flags \<Rightarrow>
               (case idxmax (map idx (records df)) flags of
                  Inl e \<Rightarrow> Inl e
                | Inr first_equity_idx \<Rightarrow>
                    if timestamp_bool first_equity_idx then loc_from df first_equity_idx
                    else Inr df)))"

definition results_dir :: string where
  "results_dir = ''./results''"

definition timeline_path :: "string \<Rightarrow> string" where
  "timeline_path p = results_dir @ ''/timeline_'' @ p @ ''.csv''"

definition summary_path :: string where
  "summary_path = results_dir @ ''/performance_summary.csv''"

definition periods :: "string list" where
  "periods = [''last_month'', ''full_3mo'', ''prior_2mo'']"

text \<open>
  \<^verbatim>\<open>summary_df[c] = pd.to_datetime(summary_df[c])\<close>: the column must exist, and
  \<^verbatim>\<open>pd.to_datetime\<close> raises a \<open>ValueError\<close> when a cell of it is a text that is no date,
  that is when the column is among the text columns. Otherwise every cell is a date or
  blank (\<open>None\<close>, which becomes NaT), and the fields of the rows hold the converted
  column already.
\<close>

definition to_datetime_col ::
  "string list \<Rightarrow> summary_row dataframe \<Rightarrow> string \<Rightarrow> (summary_row \<Rightarrow> int option) \<Rightarrow>
   py_error + summary_row dataframe" where
  "to_datetime_col tcols df name field =
     (case getitem df name field of
        Inl e \<Rightarrow> Inl e
      | Inr _ \<Rightarrow> if name \<in> set tcols then Inl ValueError else Inr df)"

text \<open>The loop over the three periods, with the dictionary \<open>timelines\<close> as accumulator.\<close>

fun load_timelines ::
  "disk \<Rightarrow> string list \<Rightarrow> (string \<rightharpoonup> timeline_row dataframe) \<Rightarrow>
   py_error + (string \<rightharpoonup> timeline_row dataframe)" where
  "load_timelines fs [] timelines = Inr timelines"
| "load_timelines fs (p # ps) timelines =
     (case read_csv (timeline_files fs) (timeline_path p) of
        Inl e \<Rightarrow> Inl e
      | Inr (df, tcols) \<Rightarrow>
          (case trim_warmup tcols df of
             Inl e \<Rightarrow> Inl e
           | Inr df' \<Rightarrow> load_timelines fs ps (timelines(p \<mapsto> df'))))"

definition load_backtest_data ::
  "disk \<Rightarrow> py_error + (summary_row dataframe \<times> (string \<rightharpoonup> timeline_row dataframe))" where
  "load_backtest_data fs =
     (case read_csv (summary_files fs) summary_path of
        Inl e \<Rightarrow> Inl e
      | Inr (summary_df, tcols) \<Rightarrow>
          (case to_datetime_col tcols summary_df ''start_date'' start_date of
             Inl e \<Rightarrow> Inl e
           | Inr summary_df1 \<Rightarrow>
               (case to_datetime_col tcols summary_df1 ''end_date'' end_date of
                  Inl e \<Rightarrow> Inl e
                | Inr summary_df2 \<Rightarrow>
                    (case load_timelines fs periods Map.empty of
                       Inl e \<Rightarrow> Inl e
                     | Inr timelines \<Rightarrow> Inr (summary_df2, timelines)))))"

section \<open>The rendering pass\<close>

text \<open>
  The script below the loader runs once per interaction. The model returns what it
  hands to the display (the \<open>page\<close>) or the first exception. Formatting of numbers
  into text, chart layout and colours are left out, and so is the signal distribution,
  which is computed from a column that was read before and cannot raise.
\<close>

definition and_then :: "'e + 'a \<Rightarrow> ('a \<Rightarrow> 'e + 'b) \<Rightarrow> 'e + 'b" where
  "and_then m f = (case m of Inl e \<Rightarrow> Inl e | Inr x \<Rightarrow> f x)"

text \<open>A dictionary lookup \<^verbatim>\<open>d[k]\<close>.\<close>

definition dict_get :: "('k \<rightharpoonup> 'v) \<Rightarrow> 'k \<Rightarrow> py_error + 'v" where
  "dict_get d k = (case d k of None \<Rightarrow> Inl KeyError | Some v \<Rightarrow> Inr v)"

definition period_options :: "string \<rightharpoonup> string" where
  "period_options =
     [''Last Month'' \<mapsto> ''last_month'',
      ''Full 3 Months'' \<mapsto> ''full_3mo'',
      ''Prior 2 Months'' \<mapsto> ''prior_2mo'']"

definition period_names :: "string \<rightharpoonup> string" where
  "period_names =
     [''last_month'' \<mapsto> ''Last Month'',
      ''full_3mo'' \<mapsto> ''Full 3 Months'',
      ''prior_2mo'' \<mapsto> ''Prior 2 Months'']"

text \<open>\<^verbatim>\<open>df[flags]\<close> with a boolean series over the same index: the rows flagged true.\<close>

definition boolean_select :: "'r list \<Rightarrow> bool list \<Rightarrow> 'r list" where
  "boolean_select rs flags = map fst (filter snd (zip rs flags))"

text \<open>\<^verbatim>\<open>.iloc[0]\<close>: the first row, or \<open>IndexError\<close> on an empty selection.\<close>

definition iloc0 :: "'r list \<Rightarrow> py_error + 'r" where
  "iloc0 rs = (case rs of [] \<Rightarrow> Inl IndexError | r # _ \<Rightarrow> Inr r)"

text \<open>Line 62: \<^verbatim>\<open>summary_df[summary_df["period"] == selected_period].iloc[0]\<close>.\<close>

definition period_summary :: "summary_row dataframe \<Rightarrow> string \<Rightarrow> py_error + summary_row" where
  "period_summary summary_df selected_period =
     and_then (getitem summary_df ''period'' period) (\<lambda>col.
       iloc0 (boolean_select (records summary_df) (map (\<lambda>p. p = selected_period) col)))"

text \<open>
  \<^verbatim>\<open>row[name]\<close> on a row of a frame: the row carries the frame's column names as its
  labels.
\<close>

definition row_getitem :: "string list \<Rightarrow> 'r \<Rightarrow> string \<Rightarrow> ('r \<Rightarrow> 'c) \<Rightarrow> py_error + 'c" where
  "row_getitem labels r name field = (if name \<in> set labels then Inr (field r) else Inl KeyError)"

text \<open>\<^verbatim>\<open>Series.ffill\<close>: a missing cell takes the last value seen before it, if any.\<close>

fun ffill_from :: "real option \<Rightarrow> real option list \<Rightarrow> real option list" where
  "ffill_from prev [] = []"
| "ffill_from prev (c # cs) =
     (case c of None \<Rightarrow> prev # ffill_from prev cs | Some x \<Rightarrow> Some x # ffill_from (Some x) cs)"

definition ffill :: "real option list \<Rightarrow> real option list" where
  "ffill cs = ffill_from None cs"

text \<open>Subtraction of two cells; a missing operand gives a missing result.\<close>

definition fsub :: "real option \<Rightarrow> real option \<Rightarrow> real option" where
  "fsub a b = (case a of None \<Rightarrow> None | Some x \<Rightarrow> (case b of None \<Rightarrow> None | Some y \<Rightarrow> Some (x - y)))"

text \<open>Line 67: \<^verbatim>\<open>cum_pnl = equity - initial_capital\<close>, a series minus a scalar.\<close>

definition cum_pnl :: "real option list \<Rightarrow> real option \<Rightarrow> real option list" where
  "cum_pnl equity_series capital = map (\<lambda>e. fsub e capital) equity_series"

text \<open>\<^verbatim>\<open>.strftime\<close> on a date of the summary row: NaT raises \<open>ValueError\<close>.\<close>

definition strftime :: "int option \<Rightarrow> py_error + int" where
  "strftime d = (case d of None \<Rightarrow> Inl ValueError | Some t \<Rightarrow> Inr t)"

text \<open>
  Lines 77 to 90: the dictionary \<^verbatim>\<open>metrics_data\<close>, its entries evaluated in order; each
  reads one column of the summary row.
\<close>

definition metric_columns :: "(string \<times> string \<times> (summary_row \<Rightarrow> real option)) list" where
  "metric_columns =
     [(''Net PnL (USD)'', ''net_pnl'', net_pnl),
      (''Total Return (%)'', ''total_return_pct'', total_return_pct),
      (''Sharpe Ratio'', ''sharpe_ratio'', sharpe_ratio),
      (''Max Drawdown (%)'', ''max_drawdown_pct'', max_drawdown_pct),
      (''Win Rate (%)'', ''win_rate_pct'', win_rate_pct),
      (''Trades Per Year'', ''trades_per_year'', trades_per_year),
      (''Avg Hold Time (hrs)'', ''avg_hold_hours'', avg_hold_hours),
      (''Total Volume (USD)'', ''total_volume_usd'', total_volume_usd),
      (''Daily Volume (USD)'', ''avg_daily_volume'', avg_daily_volume),
      (''Hourly Volume (USD)'', ''avg_hourly_volume'', avg_hourly_volume),
      (''Actual Trades'', ''actual_trades'', actual_trades),
      (''Signal Flips'', ''signal_flips'', signal_flips)]"

fun read_metrics ::
  "string list \<Rightarrow> summary_row \<Rightarrow> (string \<times> string \<times> (summary_row \<Rightarrow> real option)) list \<Rightarrow>
   py_error + (string \<times> real option) list" where
  "read_metrics labels r [] = Inr []"
| "read_metrics labels r ((title, name, field) # ms) =
     and_then (row_getitem labels r name field) (\<lambda>v.
       and_then (read_metrics labels r ms) (\<lambda>vs. Inr ((title, v) # vs)))"

text \<open>
  Line 135: \<^verbatim>\<open>timeline_df.groupby(timeline_df.index.date)["volume_usd"].sum()\<close>.
  The date of a timestamp is its day number. The groups are built in one pass over the
  rows, each keeping a running sum (a missing volume adds nothing), and come out
  ordered by date.
\<close>

definition date_of :: "int \<Rightarrow> int" where
  "date_of t = t div 86400000000000"

definition nan_to_zero :: "real option \<Rightarrow> real" where
  "nan_to_zero c = (case c of None \<Rightarrow> 0 | Some x \<Rightarrow> x)"

fun group_add :: "int \<Rightarrow> real \<Rightarrow> (int \<times> real) list \<Rightarrow> (int \<times> real) list" where
  "group_add k v [] = [(k, v)]"
| "group_add k v ((k', s) # gs) =
     (if k = k' then (k', s + v) # gs else (k', s) # group_add k v gs)"

fun group_sum :: "(int \<times> real option) list \<Rightarrow> (int \<times> real) list \<Rightarrow> (int \<times> real) list" where
  "group_sum [] acc = acc"
| "group_sum ((k, c) # kcs) acc = group_sum kcs (group_add k (nan_to_zero c) acc)"

definition daily_volume :: "timeline_row dataframe \<Rightarrow> py_error + (int \<times> real) list" where
  "daily_volume timeline_df =
     and_then (getitem timeline_df ''volume_usd'' volume_usd) (\<lambda>col.
       Inr (sort_key fst (group_sum (zip (map (\<lambda>r. date_of (idx r)) (records timeline_df)) col) [])))"

text \<open>
  Line 156: \<^verbatim>\<open>equity.pct_change().fillna(0)\<close>. pandas computes the change as the
  series divided by the series shifted by one row, minus one. The first row has no
  predecessor and is NaN, as is every row with a missing operand. A division by a zero
  equity leaves the numbers: it gives NaN for zero by zero and an infinity otherwise
  (the sign of a zero is not modelled), so the cells of the result are numbers,
  infinities or NaN. \<^verbatim>\<open>fillna(0)\<close> then replaces NaN, and only NaN, by zero. (The
  padding that \<^verbatim>\<open>pct_change\<close> applies by default changes nothing in a series that is
  forward-filled already.)
\<close>

datatype float_cell = Fin real | PosInf | NegInf | NaN

definition pct_step :: "real option \<Rightarrow> real option \<Rightarrow> float_cell" where
  "pct_step prev cur =
     (case prev of
        None \<Rightarrow> NaN
      | Some p \<Rightarrow>
          (case cur of
             None \<Rightarrow> NaN
           | Some c \<Rightarrow>
               if p = 0 then (if c = 0 then NaN else if 0 < c then PosInf else NegInf)
               else Fin (c / p - 1)))"

definition pct_change :: "real option list \<Rightarrow> float_cell list" where
  "pct_change xs = (case xs of [] \<Rightarrow> [] | x # rest \<Rightarrow> NaN # map2 pct_step xs rest)"

definition fillna0_cells :: "float_cell list \<Rightarrow> float_cell list" where
  "fillna0_cells cs = map (\<lambda>c. case c of NaN \<Rightarrow> Fin 0 | _ \<Rightarrow> c) cs"

text \<open>
  Line 157: \<^verbatim>\<open>pct_change.rolling(30).std()\<close>. The window of a row is the row and the
  29 rows before it; the minimum number of observations is the window size, so a row
  with fewer than 30 rows up to it is NaN. Infinities count as missing, and a window
  with a missing observation is NaN as well. Otherwise the value is the standard
  deviation of the 30 values with the divisor 29 (pandas' default, one degree of freedom
  less than the count).
\<close>

definition sample_std :: "real list \<Rightarrow> real" where
  "sample_std xs =
     (let m = sum_list xs / real (length xs)
      in sqrt (sum_list (map (\<lambda>x. (x - m)\<^sup>2) xs) / real (length xs - 1)))"

definition observation :: "float_cell \<Rightarrow> real option" where
  "observation c = (case c of Fin x \<Rightarrow> Some x | _ \<Rightarrow> None)"

definition rolling_std :: "nat \<Rightarrow> float_cell list \<Rightarrow> float_cell list" where
  "rolling_std w cs =
     map (\<lambda>t. if t + 1 < w \<or> w < 2 then NaN
              else (case those (map observation (take w (drop (t + 1 - w) cs))) of
                      None \<Rightarrow> NaN
                    | Some xs \<Rightarrow> Fin (sample_std xs)))
       [0..<length cs]"

text \<open>Line 199: \<^verbatim>\<open>timeline_df["signal"].fillna(0)\<close>.\<close>

definition fillna0 :: "real option list \<Rightarrow> real option list" where
  "fillna0 cs = map (\<lambda>c. case c of None \<Rightarrow> Some 0 | Some x \<Rightarrow> Some x) cs"

text \<open>
  Lines 219 and 259: the rows with a flag set. Line 219 reads \<^verbatim>\<open>is_entry\<close> first, line
  259 \<^verbatim>\<open>is_exit\<close> first.
\<close>

definition entries_exits :: "timeline_row dataframe \<Rightarrow> py_error + timeline_row list" where
  "entries_exits timeline_df =
     and_then (getitem timeline_df ''is_entry'' is_entry) (\<lambda>en.
       and_then (getitem timeline_df ''is_exit'' is_exit) (\<lambda>ex.
         Inr (boolean_select (records timeline_df) (map2 (\<or>) en ex))))"

definition trade_log :: "timeline_row dataframe \<Rightarrow> py_error + timeline_row list" where
  "trade_log timeline_df =
     and_then (getitem timeline_df ''is_exit'' is_exit) (\<lambda>ex.
       and_then (getitem timeline_df ''is_entry'' is_entry) (\<lambda>en.
         Inr (boolean_select (records timeline_df) (map2 (\<or>) ex en))))"

text \<open>Lines 221 to 254: the markers of the trade chart, drawn when there is a flagged row.\<close>

definition trade_markers :: "timeline_row list \<Rightarrow> (timeline_row list \<times> timeline_row list) option" where
  "trade_markers ee =
     (if ee = [] then None
      else Some (boolean_select ee (map is_entry ee), boolean_select ee (map is_exit ee)))"

text \<open>
  Lines 261 to 286: the trade log is shown with those of \<^verbatim>\<open>display_cols\<close> that the
  timeline has; an empty log shows the notice instead.
\<close>

definition display_cols :: "string list" where
  "display_cols =
     [''signal'', ''price'', ''qty'', ''pnl'', ''equity'', ''volume_usd'', ''is_entry'', ''is_exit'']"

definition available_cols :: "string list \<Rightarrow> string list" where
  "available_cols cols = filter (\<lambda>col. col \<in> set cols) display_cols"

datatype trade_view = Trade_Table "string list" "timeline_row list" | No_Trades

definition show_trade_log :: "string list \<Rightarrow> timeline_row list \<Rightarrow> trade_view" where
  "show_trade_log cols tlog =
     (if tlog = [] then No_Trades else Trade_Table (available_cols cols) tlog)"

text \<open>Lines 292 to 311: one comparison entry per row of the summary, appended in order.\<close>

record comparison_row =
  c_period :: string
  c_return :: "real option"
  c_sharpe :: "real option"
  c_max_dd :: "real option"
  c_win_rate :: "real option"
  c_trades_year :: "real option"

fun comparison_loop ::
  "string list \<Rightarrow> summary_row list \<Rightarrow> comparison_row list \<Rightarrow> py_error + comparison_row list" where
  "comparison_loop labels [] comparison_data = Inr comparison_data"
| "comparison_loop labels (r # rs) comparison_data =
     and_then (row_getitem labels r ''period'' period) (\<lambda>p.
     and_then (dict_get period_names p) (\<lambda>name.
     and_then (row_getitem labels r ''total_return_pct'' total_return_pct) (\<lambda>ret.
     and_then (row_getitem labels r ''sharpe_ratio'' sharpe_ratio) (\<lambda>sh.
     and_then (row_getitem labels r ''max_drawdown_pct'' max_drawdown_pct) (\<lambda>dd.
     and_then (row_getitem labels r ''win_rate_pct'' win_rate_pct) (\<lambda>wr.
     and_then (row_getitem labels r ''trades_per_year'' trades_per_year) (\<lambda>ty.
       comparison_loop labels rs
         (comparison_data @
          [\<lparr>c_period = name, c_return = ret, c_sharpe = sh, c_max_dd = dd,
            c_win_rate = wr, c_trades_year = ty\<rparr>]))))))))"

definition comparison_df :: "summary_row dataframe \<Rightarrow> py_error + comparison_row list" where
  "comparison_df summary_df = comparison_loop (columns summary_df) (records summary_df) []"

record page =
  pg_summary :: summary_row
  pg_initial_capital :: "real option"
  pg_equity :: "real option list"
  pg_cum_pnl :: "real option list"
  pg_start :: int
  pg_end :: int
  pg_rows :: "real option"
  pg_metrics :: "(string \<times> real option) list"
  pg_daily_volume :: "(int \<times> real) list"
  pg_pct_change :: "float_cell list"
  pg_vol_rolling :: "float_cell list"
  pg_signals :: "real option list"
  pg_markers :: "(timeline_row list \<times> timeline_row list) option"
  pg_trade_log :: trade_view
  pg_comparison :: "comparison_row list"

definition render ::
  "summary_row dataframe \<Rightarrow> (string \<rightharpoonup> timeline_row dataframe) \<Rightarrow> string \<Rightarrow> py_error + page" where
  "render summary_df timelines selected_period_name =
     and_then (dict_get period_options selected_period_name) (\<lambda>selected_period.
     and_then (dict_get timelines selected_period) (\<lambda>timeline_df.
     and_then (period_summary summary_df selected_period) (\<lambda>ps.
     and_then (row_getitem (columns summary_df) ps ''initial_capital'' initial_capital) (\<lambda>capital.
     and_then (getitem timeline_df ''equity'' equity) (\<lambda>eq_col.
     and_then (row_getitem (columns summary_df) ps ''start_date'' start_date) (\<lambda>sd.
     and_then (strftime sd) (\<lambda>sd_text.
     and_then (row_getitem (columns summary_df) ps ''end_date'' end_date) (\<lambda>ed.
     and_then (strftime ed) (\<lambda>ed_text.
     and_then (row_getitem (columns summary_df) ps ''rows'' rows) (\<lambda>n.
     and_then (read_metrics (columns summary_df) ps metric_columns) (\<lambda>metrics.
     and_then (daily_volume timeline_df) (\<lambda>dv.
     and_then (getitem timeline_df ''signal'' signal) (\<lambda>sig.
     and_then (entries_exits timeline_df) (\<lambda>ee.
     and_then (trade_log timeline_df) (\<lambda>tlog.
     and_then (comparison_df summary_df) (\<lambda>cmp.
       Inr \<lparr>pg_summary = ps, pg_initial_capital = capital, pg_equity = ffill eq_col,
            pg_cum_pnl = cum_pnl (ffill eq_col) capital, pg_start = sd_text, pg_end = ed_text,
            pg_rows = n, pg_metrics = metrics, pg_daily_volume = dv,
            pg_pct_change = fillna0_cells (pct_change (ffill eq_col)),
            pg_vol_rolling = rolling_std 30 (fillna0_cells (pct_change (ffill eq_col))),
            pg_signals = fillna0 sig, pg_markers = trade_markers ee,
            pg_trade_log = show_trade_log (columns timeline_df) tlog,
            pg_comparison = cmp\<rparr>))))))))))))))))"

text \<open>The whole script: load, then render the period chosen in the select box.\<close>

definition dashboard :: "disk \<Rightarrow> string \<Rightarrow> py_error + page" where
  "dashboard fs selected_period_name =
     and_then (load_backtest_data fs) (\<lambda>(summary_df, timelines).
       render summary_df timelines selected_period_name)"

section \<open>Notions used in the statements\<close>

text \<open>
  What the loader needs of a file that exists. It is a CSV table. The summary has the
  two date columns it converts, and every cell of them is a date or blank; a timeline
  has the equity column, every cell of it a number or blank, at least one row and no
  timestamp twice.
\<close>

definition loadable_summary :: "summary_row csv \<Rightarrow> bool" where
  "loadable_summary f =
     (case f of
        Not_CSV \<Rightarrow> False
      | CSV df tcols \<Rightarrow>
          ''start_date'' \<in> set (columns df) \<and> ''start_date'' \<notin> set tcols \<and>
          ''end_date'' \<in> set (columns df) \<and> ''end_date'' \<notin> set tcols)"

definition loadable_timeline :: "timeline_row csv \<Rightarrow> bool" where
  "loadable_timeline f =
     (case f of
        Not_CSV \<Rightarrow> False
      | CSV df tcols \<Rightarrow>
          ''equity'' \<in> set (columns df) \<and> ''equity'' \<notin> set tcols \<and>
          records df \<noteq> [] \<and> distinct (map idx (records df)))"

text \<open>
  The timeline from its first row with positive equity on; the timeline itself when no
  row has positive equity.
\<close>

definition from_first_positive :: "timeline_row dataframe \<Rightarrow> timeline_row dataframe" where
  "from_first_positive df =
     (if \<exists>r\<in>set (records df). gt_zero (equity r)
      then df\<lparr>records := dropWhile (\<lambda>r. \<not> gt_zero (equity r)) (records df)\<rparr>
      else df)"

text \<open>The rows on display in the trade log: none under the notice.\<close>

definition shown_rows :: "trade_view \<Rightarrow> timeline_row list" where
  "shown_rows v = (case v of No_Trades \<Rightarrow> [] | Trade_Table cols rs \<Rightarrow> rs)"

text \<open>
  The columns the rendering pass reads by name, outside the filter of the trade-log
  display: lines 66, 135, 199, 219 and 259 for the timeline; lines 62 to 89 for the
  summary.
\<close>

definition read_timeline_columns :: "string list" where
  "read_timeline_columns = [''equity'', ''volume_usd'', ''signal'', ''is_entry'', ''is_exit'']"

definition read_summary_columns :: "string list" where
  "read_summary_columns =
     [''period'', ''initial_capital'', ''start_date'', ''end_date'', ''rows''] @
     map (\<lambda>(title, name, field). name) metric_columns"

text \<open>The total of one key in a list of keyed cells, a missing cell counting as zero.\<close>

definition key_total :: "int \<Rightarrow> (int \<times> real option) list \<Rightarrow> real" where
  "key_total d kcs = sum_list (map (\<lambda>kc. nan_to_zero (snd kc)) (filter (\<lambda>kc. fst kc = d) kcs))"

section \<open>Example data\<close>

text \<open>
  A summary with one row per period and a timeline of five one-minute bars over three
  days, the first two of them a warm-up with zero equity; then the variants that the
  examples below run: a timeline that never leaves zero equity, one with no rows, a
  store without the last file, a summary that repeats a period, one that lacks the
  selected period, timelines without the \<^verbatim>\<open>price\<close> or the \<^verbatim>\<open>signal\<close> column, a
  timeline whose equity column holds a word, a summary whose start dates do not all
  parse, and a summary file that is no table.
\<close>

definition timeline_columns :: "string list" where
  "timeline_columns =
     [''equity'', ''volume_usd'', ''signal'', ''price'', ''qty'', ''pnl'', ''is_entry'', ''is_exit'']"

definition summary_columns :: "string list" where
  "summary_columns =
     [''period'', ''start_date'', ''end_date'', ''rows'', ''initial_capital'', ''net_pnl'',
      ''total_return_pct'', ''sharpe_ratio'', ''max_drawdown_pct'', ''win_rate_pct'',
      ''trades_per_year'', ''avg_hold_hours'', ''total_volume_usd'', ''avg_daily_volume'',
      ''avg_hourly_volume'', ''actual_trades'', ''signal_flips'']"

definition bar :: "int \<Rightarrow> real option \<Rightarrow> real \<Rightarrow> real \<Rightarrow> bool \<Rightarrow> bool \<Rightarrow> timeline_row" where
  "bar t e v s en ex =
     \<lparr>idx = t, equity = e, volume_usd = Some v, signal = Some s, price = Some 65000,
      qty = Some 0.03, pnl = Some 0, is_entry = en, is_exit = ex\<rparr>"

definition summary_of :: "string \<Rightarrow> real \<Rightarrow> summary_row" where
  "summary_of p cap =
     \<lparr>period = p, start_date = Some 19800, end_date = Some 19830, rows = Some 5,
      initial_capital = Some cap, net_pnl = Some 10, total_return_pct = Some 1,
      sharpe_ratio = Some 2, max_drawdown_pct = Some 3, win_rate_pct = Some 50,
      trades_per_year = Some 100, avg_hold_hours = Some 4, total_volume_usd = Some 800,
      avg_daily_volume = Some 400, avg_hourly_volume = Some 20, actual_trades = Some 1,
      signal_flips = Some 2\<rparr>"

definition demo_summary :: "summary_row dataframe" where
  "demo_summary =
     \<lparr>columns = summary_columns,
      records = [summary_of ''last_month'' 1000, summary_of ''full_3mo'' 1000,
                 summary_of ''prior_2mo'' 1000]\<rparr>"

definition demo_bars :: "timeline_row list" where
  "demo_bars =
     [bar 86400000000000 (Some 1000) 500 1 True False,
      bar 86460000000000 None 0 1 False False,
      bar 172800000000000 (Some 1010) 300 0 False True]"

definition demo_timeline :: "timeline_row dataframe" where
  "demo_timeline =
     \<lparr>columns = timeline_columns,
      records = bar 0 (Some 0) 0 0 False False # bar 60000000000 (Some 0) 0 0 False False # demo_bars\<rparr>"

definition demo_trimmed :: "timeline_row dataframe" where
  "demo_trimmed = \<lparr>columns = timeline_columns, records = demo_bars\<rparr>"

definition demo_loaded :: "string \<rightharpoonup> timeline_row dataframe" where
  "demo_loaded =
     [''last_month'' \<mapsto> demo_trimmed, ''full_3mo'' \<mapsto> demo_trimmed, ''prior_2mo'' \<mapsto> demo_trimmed]"

definition demo_disk :: disk where
  "demo_disk =
     \<lparr>summary_files = [summary_path \<mapsto> CSV demo_summary []],
      timeline_files =
        [timeline_path ''last_month'' \<mapsto> CSV demo_timeline [],
         timeline_path ''full_3mo'' \<mapsto> CSV demo_timeline [],
         timeline_path ''prior_2mo'' \<mapsto> CSV demo_timeline []]\<rparr>"

definition demo_page :: page where
  "demo_page =
     \<lparr>pg_summary = summary_of ''last_month'' 1000,
      pg_initial_capital = Some 1000,
      pg_equity = [Some 1000, Some 1000, Some 1010],
      pg_cum_pnl = [Some 0, Some 0, Some 10],
      pg_start = 19800, pg_end = 19830, pg_rows = Some 5,
      pg_metrics =
        [(''Net PnL (USD)'', Some 10), (''Total Return (%)'', Some 1),
         (''Sharpe Ratio'', Some 2), (''Max Drawdown (%)'', Some 3),
         (''Win Rate (%)'', Some 50), (''Trades Per Year'', Some 100),
         (''Avg Hold Time (hrs)'', Some 4), (''Total Volume (USD)'', Some 800),
         (''Daily Volume (USD)'', Some 400), (''Hourly Volume (USD)'', Some 20),
         (''Actual Trades'', Some 1), (''Signal Flips'', Some 2)],
      pg_daily_volume = [(1, 500), (2, 300)],
      pg_pct_change = [Fin 0, Fin 0, Fin (1 / 100)],
      pg_vol_rolling = [NaN, NaN, NaN],
      pg_signals = [Some 1, Some 1, Some 0],
      pg_markers =
        Some ([bar 86400000000000 (Some 1000) 500 1 True False],
              [bar 172800000000000 (Some 1010) 300 0 False True]),
      pg_trade_log =
        Trade_Table display_cols
          [bar 86400000000000 (Some 1000) 500 1 True False,
           bar 172800000000000 (Some 1010) 300 0 False True],
      pg_comparison =
        [\<lparr>c_period = ''Last Month'', c_return = Some 1, c_sharpe = Some 2, c_max_dd = Some 3,
           c_win_rate = Some 50, c_trades_year = Some 100\<rparr>,
         \<lparr>c_period = ''Full 3 Months'', c_return = Some 1, c_sharpe = Some 2, c_max_dd = Some 3,
           c_win_rate = Some 50, c_trades_year = Some 100\<rparr>,
         \<lparr>c_period = ''Prior 2 Months'', c_return = Some 1, c_sharpe = Some 2, c_max_dd = Some 3,
           c_win_rate = Some 50, c_trades_year = Some 100\<rparr>]\<rparr>"

definition flat_timeline :: "timeline_row dataframe" where
  "flat_timeline =
     \<lparr>columns = timeline_columns,
      records = [bar 0 (Some 0) 0 0 False False, bar 60000000000 (Some 0) 0 0 False False]\<rparr>"

definition flat_disk :: disk where
  "flat_disk =
     \<lparr>summary_files = [summary_path \<mapsto> CSV demo_summary []],
      timeline_files =
        [timeline_path ''last_month'' \<mapsto> CSV flat_timeline [],
         timeline_path ''full_3mo'' \<mapsto> CSV demo_timeline [],
         timeline_path ''prior_2mo'' \<mapsto> CSV demo_timeline []]\<rparr>"

definition empty_timeline :: "timeline_row dataframe" where
  "empty_timeline = \<lparr>columns = timeline_columns, records = []\<rparr>"

definition empty_disk :: disk where
  "empty_disk =
     \<lparr>summary_files = [summary_path \<mapsto> CSV demo_summary []],
      timeline_files =
        [timeline_path ''last_month'' \<mapsto> CSV empty_timeline [],
         timeline_path ''full_3mo'' \<mapsto> CSV demo_timeline [],
         timeline_path ''prior_2mo'' \<mapsto> CSV demo_timeline []]\<rparr>"

definition gap_disk :: disk where
  "gap_disk =
     \<lparr>summary_files = [summary_path \<mapsto> CSV demo_summary []],
      timeline_files =
        [timeline_path ''last_month'' \<mapsto> CSV demo_timeline [],
         timeline_path ''full_3mo'' \<mapsto> CSV demo_timeline []]\<rparr>"

definition twice_summary :: "summary_row dataframe" where
  "twice_summary =
     \<lparr>columns = summary_columns,
      records = [summary_of ''last_month'' 1000, summary_of ''last_month'' 2000]\<rparr>"

definition twice_disk :: disk where
  "twice_disk = demo_disk\<lparr>summary_files := [summary_path \<mapsto> CSV twice_summary []]\<rparr>"

definition orphan_summary :: "summary_row dataframe" where
  "orphan_summary =
     \<lparr>columns = summary_columns,
      records = [summary_of ''full_3mo'' 1000, summary_of ''prior_2mo'' 1000]\<rparr>"

definition priceless_timeline :: "timeline_row dataframe" where
  "priceless_timeline =
     \<lparr>columns = [''equity'', ''volume_usd'', ''signal'', ''qty'', ''pnl'', ''is_entry'', ''is_exit''],
      records = map (\<lambda>r. r\<lparr>price := None\<rparr>) (records demo_timeline)\<rparr>"

definition priceless_disk :: disk where
  "priceless_disk =
     \<lparr>summary_files = [summary_path \<mapsto> CSV demo_summary []],
      timeline_files =
        [timeline_path ''last_month'' \<mapsto> CSV priceless_timeline [],
         timeline_path ''full_3mo'' \<mapsto> CSV demo_timeline [],
         timeline_path ''prior_2mo'' \<mapsto> CSV demo_timeline []]\<rparr>"

definition unsignalled :: "timeline_row dataframe" where
  "unsignalled =
     \<lparr>columns = [''equity'', ''volume_usd'', ''price'', ''qty'', ''pnl'', ''is_entry'', ''is_exit''],
      records = demo_bars\<rparr>"

definition unpriced :: "timeline_row dataframe" where
  "unpriced =
     \<lparr>columns = [''equity'', ''volume_usd'', ''signal'', ''qty'', ''pnl'', ''is_entry'', ''is_exit''],
      records = demo_bars\<rparr>"

definition worded_disk :: disk where
  "worded_disk =
     \<lparr>summary_files = [summary_path \<mapsto> CSV demo_summary []],
      timeline_files =
        [timeline_path ''last_month'' \<mapsto> CSV demo_timeline [''equity''],
         timeline_path ''full_3mo'' \<mapsto> CSV demo_timeline [],
         timeline_path ''prior_2mo'' \<mapsto> CSV demo_timeline []]\<rparr>"

definition undated_disk :: disk where
  "undated_disk = demo_disk\<lparr>summary_files := [summary_path \<mapsto> CSV demo_summary [''start_date'']]\<rparr>"

definition garbled_disk :: disk where
  "garbled_disk = demo_disk\<lparr>summary_files := [summary_path \<mapsto> Not_CSV]\<rparr>"

text \<open>
  Thirty one-minute bars, the equity at 100 for the first 29 and at 110 for the last,
  and the page the pass renders for them.
\<close>

definition steady_bars :: "timeline_row list" where
  "steady_bars =
     map (\<lambda>i. bar (int i * 60000000000) (Some (if i < 29 then 100 else 110)) 0 0 False False)
       [0..<30]"

definition steady_timeline :: "timeline_row dataframe" where
  "steady_timeline = \<lparr>columns = timeline_columns, records = steady_bars\<rparr>"

definition steady_loaded :: "string \<rightharpoonup> timeline_row dataframe" where
  "steady_loaded = demo_loaded(''last_month'' \<mapsto> steady_timeline)"

definition steady_page :: page where
  "steady_page = projr (render demo_summary steady_loaded ''Last Month'')"

section \<open>Facts about the loader\<close>

lemma dropWhile_label_distinct:
  "distinct (map f xs) \<Longrightarrow> k < length xs \<Longrightarrow> dropWhile (\<lambda>r. f r \<noteq> f (xs ! k)) xs = drop k xs"
proof (induction xs arbitrary: k)
  case Nil then show ?case by simp
next
  case (Cons x xs)
  show ?case
  proof (cases k)
    case 0 then show ?thesis by simp
  next
    case (Suc j)
    with Cons.prems have j: "j < length xs" and d: "distinct (map f xs)" and nx: "f x \<notin> f ` set xs" by auto
    from j nx have "f x \<noteq> f (xs ! j)" by (metis imageI nth_mem)
    with Cons.IH[OF d j] Suc show ?thesis by simp
  qed
qed

lemma argmax_some:
  assumes "\<exists>b\<in>set flags. b"
  shows "argmax flags = length (takeWhile (\<lambda>b. \<not> b) flags) \<and> argmax flags < length flags"
proof -
  have "length (takeWhile (\<lambda>b. \<not> b) flags) + length (dropWhile (\<lambda>b. \<not> b) flags) = length flags"
    by (metis length_append takeWhile_dropWhile_id)
  moreover have "dropWhile (\<lambda>b. \<not> b) flags \<noteq> []"
    using assms by (simp add: dropWhile_eq_Nil_conv)
  ultimately have "length (takeWhile (\<lambda>b. \<not> b) flags) < length flags"
    by (cases "dropWhile (\<lambda>b. \<not> b) flags") auto
  then show ?thesis by (simp add: argmax_def)
qed

lemma argmax_none: "\<forall>b\<in>set flags. \<not> b \<Longrightarrow> argmax flags = 0"
  unfolding argmax_def Let_def by (simp add: takeWhile_eq_all_conv[THEN iffD2])

lemma loc_from_distinct:
  assumes "distinct (map idx (records df))" "k < length (records df)"
  shows "loc_from df (idx (records df ! k)) = Inr (df\<lparr>records := drop k (records df)\<rparr>)"
proof -
  let ?l = "idx (records df ! k)"
  have t: "dropWhile (\<lambda>r. idx r \<noteq> ?l) (records df) = drop k (records df)"
    using dropWhile_label_distinct[OF assms] .
  have ne: "drop k (records df) \<noteq> []" using assms(2) by simp
  have dk: "drop k (records df) = (records df ! k) # drop (Suc k) (records df)"
    using assms(2) by (simp add: Cons_nth_drop_Suc)
  have dd: "distinct (map idx (drop k (records df)))"
    using assms(1) by (simp add: distinct_drop drop_map[symmetric])
  have "?l \<notin> set (map idx (drop (Suc k) (records df)))"
    using dd dk by auto
  moreover have "set (dropWhile (\<lambda>r. idx r = ?l) (drop k (records df))) \<subseteq> set (drop (Suc k) (records df))"
    by (subst dk) (simp add: set_dropWhileD subsetI)
  ultimately have "?l \<notin> set (map idx (dropWhile (\<lambda>r. idx r = ?l) (drop k (records df))))"
    by auto
  then show ?thesis unfolding loc_from_def Let_def t using ne by simp
qed

lemma trim_warmup_positive:
  assumes eq: "''equity'' \<in> set (columns df)"
    and nt: "''equity'' \<notin> set tcols"
    and d: "distinct (map idx (records df))"
    and pos: "\<exists>r\<in>set (records df). gt_zero (equity r)"
  shows "trim_warmup tcols df =
           Inr (df\<lparr>records := dropWhile (\<lambda>r. \<not> gt_zero (equity r)) (records df)\<rparr>)"
proof -
  let ?flags = "map gt_zero (map equity (records df))"
  let ?k = "length (takeWhile (\<lambda>r. \<not> gt_zero (equity r)) (records df))"
  have ex: "\<exists>b\<in>set ?flags. b" using pos by auto
  have tk: "length (takeWhile (\<lambda>b. \<not> b) ?flags) = ?k"
    by (simp add: takeWhile_map comp_def)
  from argmax_some[OF ex] tk have a: "argmax ?flags = ?k" and lt: "?k < length (records df)"
    by simp_all
  have ne: "?flags \<noteq> []" using ex by auto
  have "idxmax (map idx (records df)) ?flags = Inr (idx (records df ! ?k))"
    using ne a lt by (simp add: idxmax_def)
  moreover have "drop ?k (records df) = dropWhile (\<lambda>r. \<not> gt_zero (equity r)) (records df)"
    by (simp add: dropWhile_eq_drop)
  ultimately show ?thesis
    using eq nt loc_from_distinct[OF d lt]
    by (simp add: trim_warmup_def getitem_def gt_zero_col_def timestamp_bool_def)
qed

lemma trim_warmup_no_positive:
  assumes eq: "''equity'' \<in> set (columns df)"
    and nt: "''equity'' \<notin> set tcols"
    and d: "distinct (map idx (records df))"
    and ne: "records df \<noteq> []"
    and none: "\<forall>r\<in>set (records df). \<not> gt_zero (equity r)"
  shows "trim_warmup tcols df = Inr df"
proof -
  let ?flags = "map gt_zero (map equity (records df))"
  have "argmax ?flags = 0" using none by (intro argmax_none) auto
  then have "idxmax (map idx (records df)) ?flags = Inr (idx (records df ! 0))"
    using ne by (simp add: idxmax_def)
  moreover have "loc_from df (idx (records df ! 0)) = Inr df"
    using loc_from_distinct[OF d, of 0] ne by simp
  ultimately show ?thesis
    using eq nt by (simp add: trim_warmup_def getitem_def gt_zero_col_def timestamp_bool_def)
qed

lemma trim_warmup_Inr_cases:
  assumes "trim_warmup tcols df = Inr out"
  shows "\<exists>l. out = df\<lparr>records := dropWhile (\<lambda>r. idx r \<noteq> l) (records df)\<rparr>"
  using assms
  by (auto simp: trim_warmup_def getitem_def gt_zero_col_def timestamp_bool_def loc_from_def
      Let_def idxmax_def split: if_splits sum.splits)

lemma trim_warmup_Inr_column:
  assumes "trim_warmup tcols df = Inr out"
  shows "''equity'' \<in> set (columns df) \<and> ''equity'' \<notin> set tcols"
  using assms
  by (auto simp: trim_warmup_def getitem_def gt_zero_col_def split: if_splits)

lemma trim_warmup_suffix:
  assumes "trim_warmup tcols df = Inr out"
  shows "suffix (records out) (records df) \<and> columns out = columns df"
proof -
  from trim_warmup_Inr_cases[OF assms] obtain l where
    "out = df\<lparr>records := dropWhile (\<lambda>r. idx r \<noteq> l) (records df)\<rparr>" ..
  then show ?thesis by (simp add: suffix_dropWhile)
qed

lemma trim_warmup_no_positive_Inr:
  assumes "trim_warmup tcols df = Inr out" and none: "\<forall>r\<in>set (records df). \<not> gt_zero (equity r)"
  shows "out = df"
proof -
  let ?flags = "map gt_zero (map equity (records df))"
  have a: "argmax ?flags = 0" using none by (intro argmax_none) auto
  from assms(1) have ne: "records df \<noteq> []"
    by (auto simp: trim_warmup_def getitem_def gt_zero_col_def idxmax_def split: if_splits)
  then obtain r rs where rr: "records df = r # rs" by (cases "records df") auto
  from assms(1) a rr show ?thesis
    by (auto simp: trim_warmup_def getitem_def gt_zero_col_def timestamp_bool_def loc_from_def
        Let_def idxmax_def split: if_splits)
qed

lemma trim_warmup_loadable:
  "loadable_timeline (CSV df tcols) \<Longrightarrow> trim_warmup tcols df = Inr (from_first_positive df)"
  using trim_warmup_positive[of df tcols] trim_warmup_no_positive[of df tcols]
  by (auto simp: loadable_timeline_def from_first_positive_def)

lemma length_takeWhile_mono:
  "(\<And>x. P x \<Longrightarrow> Q x) \<Longrightarrow> length (takeWhile P xs) \<le> length (takeWhile Q xs)"
  by (induction xs) auto

lemma read_csv_Inr:
  "read_csv files path = Inr (df, tcols) \<longleftrightarrow> files path = Some (CSV df tcols)"
  by (auto simp: read_csv_def split: option.splits csv.splits)

lemma load_timelines_other:
  "load_timelines fs ps acc = Inr tls \<Longrightarrow> p \<notin> set ps \<Longrightarrow> tls p = acc p"
  by (induction ps arbitrary: acc) (auto split: sum.splits prod.splits)

lemma load_timelines_member:
  "load_timelines fs ps acc = Inr tls \<Longrightarrow> p \<in> set ps \<Longrightarrow>
   \<exists>raw tcols out. timeline_files fs (timeline_path p) = Some (CSV raw tcols) \<and>
      trim_warmup tcols raw = Inr out \<and> tls p = Some out"
proof (induction ps arbitrary: acc)
  case Nil then show ?case by simp
next
  case (Cons q ps)
  from Cons.prems(1) obtain raw tcols out where
    f: "timeline_files fs (timeline_path q) = Some (CSV raw tcols)"
    and t: "trim_warmup tcols raw = Inr out"
    and rest: "load_timelines fs ps (acc(q \<mapsto> out)) = Inr tls"
    by (auto simp: read_csv_Inr split: sum.splits prod.splits)
  show ?case
  proof (cases "p \<in> set ps")
    case True
    from Cons.IH[OF rest True] show ?thesis .
  next
    case False
    with Cons.prems(2) have pq: "p = q" by simp
    from load_timelines_other[OF rest False] pq have "tls p = Some out" by simp
    with f t pq show ?thesis by auto
  qed
qed

lemma load_timelines_total:
  "\<forall>p\<in>set ps. \<exists>f. timeline_files fs (timeline_path p) = Some f \<and> loadable_timeline f \<Longrightarrow>
   \<exists>tls. load_timelines fs ps acc = Inr tls"
proof (induction ps arbitrary: acc)
  case Nil then show ?case by simp
next
  case (Cons q ps)
  then obtain f where f: "timeline_files fs (timeline_path q) = Some f" and l: "loadable_timeline f"
    by auto
  from l obtain df tcols where c: "f = CSV df tcols" by (cases f) (auto simp: loadable_timeline_def)
  from l c have t: "trim_warmup tcols df = Inr (from_first_positive df)"
    by (simp add: trim_warmup_loadable)
  from Cons.prems have "\<forall>p\<in>set ps. \<exists>f. timeline_files fs (timeline_path p) = Some f \<and> loadable_timeline f"
    by simp
  from Cons.IH[OF this] obtain tls where
    "load_timelines fs ps (acc(q \<mapsto> from_first_positive df)) = Inr tls" by blast
  with f c t show ?case by (simp add: read_csv_def)
qed

lemma load_timelines_absent:
  "\<exists>p\<in>set ps. timeline_files fs (timeline_path p) = None \<Longrightarrow>
   \<forall>p\<in>set ps. \<forall>f. timeline_files fs (timeline_path p) = Some f \<longrightarrow> loadable_timeline f \<Longrightarrow>
   load_timelines fs ps acc = Inl FileNotFoundError"
proof (induction ps arbitrary: acc)
  case Nil then show ?case by simp
next
  case (Cons q ps)
  show ?case
  proof (cases "timeline_files fs (timeline_path q)")
    case None then show ?thesis by (simp add: read_csv_def)
  next
    case (Some f)
    with Cons.prems(2) have l: "loadable_timeline f" by simp
    then obtain df tcols where c: "f = CSV df tcols" by (cases f) (auto simp: loadable_timeline_def)
    from l c have t: "trim_warmup tcols df = Inr (from_first_positive df)"
      by (simp add: trim_warmup_loadable)
    from Cons.prems(1) Some have "\<exists>p\<in>set ps. timeline_files fs (timeline_path p) = None" by auto
    moreover from Cons.prems(2)
    have "\<forall>p\<in>set ps. \<forall>f. timeline_files fs (timeline_path p) = Some f \<longrightarrow> loadable_timeline f"
      by simp
    ultimately have "load_timelines fs ps (acc(q \<mapsto> from_first_positive df)) = Inl FileNotFoundError"
      by (rule Cons.IH)
    with Some c t show ?thesis by (simp add: read_csv_def)
  qed
qed

lemma load_timelines_dom:
  "load_timelines fs ps acc = Inr tls \<Longrightarrow> dom tls = dom acc \<union> set ps"
  by (induction ps arbitrary: acc) (auto split: sum.splits prod.splits)

lemma load_backtest_data_Inr:
  assumes "load_backtest_data fs = Inr (summary_df, timelines)"
  shows "(\<exists>tcols. summary_files fs summary_path = Some (CSV summary_df tcols)) \<and>
         load_timelines fs periods Map.empty = Inr timelines"
  using assms
  by (auto simp: load_backtest_data_def read_csv_Inr to_datetime_col_def getitem_def
      split: sum.splits prod.splits if_splits)

section \<open>Facts about the rendering pass\<close>

lemma and_then_Inr: "and_then m f = Inr y \<longleftrightarrow> (\<exists>x. m = Inr x \<and> f x = Inr y)"
  by (cases m) (simp_all add: and_then_def)

lemma and_then_Inr_simp [simp]: "and_then (Inr x) f = f x"
  by (simp add: and_then_def)

lemma and_then_Inl_simp [simp]: "and_then (Inl e) f = Inl e"
  by (simp add: and_then_def)

lemma getitem_Inr: "getitem df name field = Inr col \<longleftrightarrow> name \<in> set (columns df) \<and> col = map field (records df)"
  by (auto simp: getitem_def)

lemma row_getitem_Inr: "row_getitem labels r name field = Inr v \<longleftrightarrow> name \<in> set labels \<and> v = field r"
  by (auto simp: row_getitem_def)

lemma dict_get_Inr: "dict_get d k = Inr v \<longleftrightarrow> d k = Some v"
  by (simp add: dict_get_def split: option.splits)

lemma strftime_Inr: "strftime d = Inr t \<longleftrightarrow> d = Some t"
  by (simp add: strftime_def split: option.splits)

lemma boolean_select_map: "boolean_select xs (map P xs) = filter P xs"
  by (induction xs) (simp_all add: boolean_select_def)

lemma map2_or_map: "map2 (\<or>) (map f xs) (map g xs) = map (\<lambda>r. f r \<or> g r) xs"
  by (induction xs) simp_all

lemma iloc0_filter: "iloc0 (filter P xs) = (case find P xs of None \<Rightarrow> Inl IndexError | Some r \<Rightarrow> Inr r)"
  by (induction xs) (simp_all add: iloc0_def)

lemma period_summary_find:
  "''period'' \<in> set (columns summary_df) \<Longrightarrow>
   period_summary summary_df sel =
     (case find (\<lambda>r. period r = sel) (records summary_df) of
        None \<Rightarrow> Inl IndexError | Some r \<Rightarrow> Inr r)"
  by (simp add: period_summary_def getitem_def boolean_select_map iloc0_filter comp_def)

lemma period_summary_Inr:
  "period_summary summary_df sel = Inr ps \<longleftrightarrow>
     ''period'' \<in> set (columns summary_df) \<and> find (\<lambda>r. period r = sel) (records summary_df) = Some ps"
proof (cases "''period'' \<in> set (columns summary_df)")
  case True
  then show ?thesis by (simp add: period_summary_find split: option.splits)
next
  case False
  then show ?thesis by (simp add: period_summary_def getitem_def)
qed

lemma trade_log_Inr:
  "trade_log tdf = Inr tlog \<longleftrightarrow>
     ''is_exit'' \<in> set (columns tdf) \<and> ''is_entry'' \<in> set (columns tdf) \<and>
     tlog = filter (\<lambda>r. is_entry r \<or> is_exit r) (records tdf)"
proof -
  have "boolean_select (records tdf) (map2 (\<or>) (map is_exit (records tdf)) (map is_entry (records tdf)))
        = filter (\<lambda>r. is_entry r \<or> is_exit r) (records tdf)"
    by (simp add: map2_or_map boolean_select_map disj_commute)
  then show ?thesis
    by (auto simp: trade_log_def getitem_def)
qed

lemma entries_exits_Inr:
  "entries_exits tdf = Inr ee \<longleftrightarrow>
     ''is_entry'' \<in> set (columns tdf) \<and> ''is_exit'' \<in> set (columns tdf) \<and>
     ee = filter (\<lambda>r. is_entry r \<or> is_exit r) (records tdf)"
proof -
  have "boolean_select (records tdf) (map2 (\<or>) (map is_entry (records tdf)) (map is_exit (records tdf)))
        = filter (\<lambda>r. is_entry r \<or> is_exit r) (records tdf)"
    by (simp add: map2_or_map boolean_select_map)
  then show ?thesis
    by (auto simp: entries_exits_def getitem_def)
qed

lemma shown_rows_show: "shown_rows (show_trade_log cols tlog) = tlog"
  by (simp add: shown_rows_def show_trade_log_def)

lemma read_metrics_Inr:
  "read_metrics labels r ms = Inr vs \<Longrightarrow>
   (\<forall>m\<in>set ms. fst (snd m) \<in> set labels) \<and> vs = map (\<lambda>(title, name, field). (title, field r)) ms"
proof (induction ms arbitrary: vs)
  case Nil then show ?case by simp
next
  case (Cons m ms)
  obtain title name field where m: "m = (title, name, field)" by (cases m)
  from Cons.prems m obtain vs' where
    "name \<in> set labels" and r: "read_metrics labels r ms = Inr vs'" and "vs = (title, field r) # vs'"
    by (auto simp: and_then_Inr row_getitem_Inr)
  with Cons.IH[OF r] m show ?case by simp
qed

lemma ffill_from_length: "length (ffill_from prev cs) = length cs"
  by (induction cs arbitrary: prev) (simp_all split: option.splits)

text \<open>The running sums of the grouping pass.\<close>

lemma group_add_keys: "fst ` set (group_add k v gs) = insert k (fst ` set gs)"
proof (induction gs)
  case Nil then show ?case by simp
next
  case (Cons g gs)
  obtain k' s where g: "g = (k', s)" by (cases g)
  show ?case
  proof (cases "k = k'")
    case True then show ?thesis using g by simp
  next
    case False
    then have "group_add k v (g # gs) = (k', s) # group_add k v gs" using g by simp
    then show ?thesis using Cons.IH g by (simp add: insert_commute)
  qed
qed

lemma group_add_distinct: "distinct (map fst gs) \<Longrightarrow> distinct (map fst (group_add k v gs))"
proof (induction gs)
  case Nil then show ?case by simp
next
  case (Cons g gs)
  obtain k' s where g: "g = (k', s)" by (cases g)
  from Cons have "distinct (map fst (group_add k v gs))" by simp
  moreover from Cons.prems g have "k' \<notin> fst ` set gs" by auto
  ultimately show ?case using g Cons.prems by (auto simp: group_add_keys)
qed

lemma group_add_map_of:
  "map_of (group_add k v gs) d =
     (if d = k then Some (case map_of gs k of None \<Rightarrow> v | Some s \<Rightarrow> s + v) else map_of gs d)"
  by (induction gs) auto

lemma group_sum_keys: "fst ` set (group_sum kcs acc) = fst ` set acc \<union> fst ` set kcs"
  by (induction kcs acc rule: group_sum.induct) (auto simp: group_add_keys)

lemma group_sum_distinct: "distinct (map fst acc) \<Longrightarrow> distinct (map fst (group_sum kcs acc))"
  by (induction kcs acc rule: group_sum.induct) (auto simp: group_add_distinct)

lemma key_total_absent: "d \<notin> fst ` set kcs \<Longrightarrow> key_total d kcs = 0"
proof -
  assume "d \<notin> fst ` set kcs"
  then have "filter (\<lambda>kc. fst kc = d) kcs = []" by (auto simp: filter_empty_conv)
  then show ?thesis by (simp add: key_total_def)
qed

lemma key_total_Cons:
  "key_total d ((k, c) # kcs) = (if k = d then nan_to_zero c + key_total d kcs else key_total d kcs)"
  by (simp add: key_total_def)

lemma group_sum_map_of:
  "map_of (group_sum kcs acc) d =
     (if d \<in> fst ` set kcs
      then Some ((case map_of acc d of None \<Rightarrow> 0 | Some s \<Rightarrow> s) + key_total d kcs)
      else map_of acc d)"
proof (induction kcs acc rule: group_sum.induct)
  case (1 acc)
  then show ?case by simp
next
  case (2 k c kcs acc)
  show ?case
    by (auto simp: 2 group_add_map_of key_total_Cons key_total_absent split: option.splits)
qed

lemma key_total_zip:
  "key_total d (zip (map f rs) (map g rs)) =
     sum_list (map (\<lambda>r. nan_to_zero (g r)) (filter (\<lambda>r. f r = d) rs))"
  by (induction rs) (simp_all add: key_total_def)

lemma map_of_sort_key:
  assumes "distinct (map fst xs)"
  shows "map_of (sort_key fst xs) = map_of xs"
proof (rule map_of_inject_set[THEN iffD2])
  show "distinct (map fst (sort_key fst xs))"
    using assms by (metis distinct_map distinct_sort set_sort) 
  show "distinct (map fst xs)" by (rule assms)
  show "set (sort_key fst xs) = set xs" by simp
qed

lemma daily_volume_groups:
  assumes "''volume_usd'' \<in> set (columns tdf)"
  shows "\<exists>dv. daily_volume tdf = Inr dv \<and>
           sorted (map fst dv) \<and> distinct (map fst dv) \<and>
           set (map fst dv) = (\<lambda>r. date_of (idx r)) ` set (records tdf) \<and>
           (\<forall>d\<in>set (map fst dv).
              map_of dv d =
                Some (sum_list (map (\<lambda>r. nan_to_zero (volume_usd r))
                                 (filter (\<lambda>r. date_of (idx r) = d) (records tdf)))))"
proof -
  let ?kcs = "zip (map (\<lambda>r. date_of (idx r)) (records tdf)) (map volume_usd (records tdf))"
  let ?gs = "group_sum ?kcs []"
  let ?dv = "sort_key fst ?gs"
  have dv: "daily_volume tdf = Inr ?dv"
    using assms by (simp add: daily_volume_def getitem_def)
  have keys: "fst ` set ?kcs = (\<lambda>r. date_of (idx r)) ` set (records tdf)"
    by (simp flip: set_map)
  have dist: "distinct (map fst ?gs)" by (rule group_sum_distinct) simp
  have 1: "sorted (map fst ?dv)" by simp
  have 2: "distinct (map fst ?dv)"
    using dist by (metis distinct_map distinct_sort set_sort)
  have 3: "set (map fst ?dv) = (\<lambda>r. date_of (idx r)) ` set (records tdf)"
    using group_sum_keys[of ?kcs "[]"] keys by simp
  have 4: "map_of ?dv d =
      Some (sum_list (map (\<lambda>r. nan_to_zero (volume_usd r))
                       (filter (\<lambda>r. date_of (idx r) = d) (records tdf))))"
    if "d \<in> set (map fst ?dv)" for d
  proof -
    from that 3 keys have "d \<in> fst ` set ?kcs" by simp
    then have "map_of ?gs d = Some (key_total d ?kcs)"
      by (simp add: group_sum_map_of)
    then show ?thesis
      by (simp add: map_of_sort_key[OF dist] key_total_zip)
  qed
  from dv 1 2 3 4 show ?thesis by blast
qed

lemma daily_volume_Inr_col: "daily_volume tdf = Inr dv \<Longrightarrow> ''volume_usd'' \<in> set (columns tdf)"
  by (auto simp: daily_volume_def and_then_Inr getitem_Inr)

lemma daily_volume_props:
  assumes dv: "daily_volume tdf = Inr dv"
  shows "set (map fst dv) = (\<lambda>r. date_of (idx r)) ` set (records tdf) \<and>
         distinct (map fst dv) \<and>
         sorted (map fst dv) \<and>
         (\<forall>d\<in>set (map fst dv).
            map_of dv d =
              Some (sum_list (map (\<lambda>r. nan_to_zero (volume_usd r))
                               (filter (\<lambda>r. date_of (idx r) = d) (records tdf)))))"
proof -
  from dv have "''volume_usd'' \<in> set (columns tdf)" by (rule daily_volume_Inr_col)
  from daily_volume_groups[OF this] obtain dv' where
    a: "daily_volume tdf = Inr dv'" and b: "sorted (map fst dv')" and c: "distinct (map fst dv')"
    and d: "set (map fst dv') = (\<lambda>r. date_of (idx r)) ` set (records tdf)"
    and e: "\<forall>d\<in>set (map fst dv').
              map_of dv' d =
                Some (sum_list (map (\<lambda>r. nan_to_zero (volume_usd r))
                                 (filter (\<lambda>r. date_of (idx r) = d) (records tdf))))"
    by blast
  from a dv have "dv' = dv" by simp
  with b c d e show ?thesis by blast
qed

text \<open>The comparison loop.\<close>

lemma period_names_inj:
  "period_names p = Some n \<Longrightarrow> period_names q = Some n \<Longrightarrow> p = q"
  by (auto simp: period_names_def split: if_splits)

lemma comparison_loop_rows:
  "comparison_loop labels rs acc = Inr out \<Longrightarrow>
   \<exists>new. out = acc @ new \<and>
     list_all2 (\<lambda>row c. period_names (period row) = Some (c_period c) \<and>
                  c_return c = total_return_pct row \<and> c_sharpe c = sharpe_ratio row \<and>
                  c_max_dd c = max_drawdown_pct row \<and> c_win_rate c = win_rate_pct row \<and>
                  c_trades_year c = trades_per_year row) rs new"
proof (induction rs arbitrary: acc)
  case Nil then show ?case by simp
next
  case (Cons r rs)
  let ?c = "\<lambda>name. \<lparr>c_period = name, c_return = total_return_pct r, c_sharpe = sharpe_ratio r,
      c_max_dd = max_drawdown_pct r, c_win_rate = win_rate_pct r,
      c_trades_year = trades_per_year r\<rparr>"
  from Cons.prems obtain name where
    n: "period_names (period r) = Some name"
    and rest: "comparison_loop labels rs (acc @ [?c name]) = Inr out"
    by (auto simp: and_then_Inr row_getitem_Inr dict_get_Inr)
  from Cons.IH[OF rest] obtain new where
    o: "out = (acc @ [?c name]) @ new"
    and l: "list_all2 (\<lambda>row c. period_names (period row) = Some (c_period c) \<and>
                  c_return c = total_return_pct row \<and> c_sharpe c = sharpe_ratio row \<and>
                  c_max_dd c = max_drawdown_pct row \<and> c_win_rate c = win_rate_pct row \<and>
                  c_trades_year c = trades_per_year row) rs new"
    by blast
  from o l n show ?case by (intro exI[of _ "?c name # new"]) simp
qed

lemma count_by_period:
  assumes "list_all2 (\<lambda>row c. period_names (period row) = Some (c_period c) \<and> Q row c) rs cs"
  shows "length (filter (\<lambda>c. period_names p = Some (c_period c)) cs)
           = length (filter (\<lambda>row. period row = p) rs)"
  using assms
proof (induction rule: list_all2_induct)
  case Nil then show ?case by simp
next
  case (Cons r rs c cs)
  then have n: "period_names (period r) = Some (c_period c)" by simp
  have "period_names p = Some (c_period c) \<longleftrightarrow> period r = p"
    using n period_names_inj[of p "c_period c" "period r"] by auto
  with Cons show ?case by simp
qed

lemma count_distinct_one:
  "distinct (map f xs) \<Longrightarrow> x \<in> set xs \<Longrightarrow> length (filter (\<lambda>r. f r = f x) xs) = 1"
proof (induction xs)
  case Nil then show ?case by simp
next
  case (Cons y ys)
  show ?case
  proof (cases "f y = f x")
    case True
    with Cons.prems have "\<forall>r\<in>set ys. f r \<noteq> f x" by (metis distinct.simps(2) image_eqI list.simps(9) set_map)
    then have "filter (\<lambda>r. f r = f x) ys = []" by (simp add: filter_empty_conv)
    with True show ?thesis by simp
  next
    case False
    with Cons.prems have "x \<in> set ys" by auto
    with Cons False show ?thesis by simp
  qed
qed

text \<open>A pass that returns a page has passed every step.\<close>

lemma render_InrD:
  assumes "render summary_df timelines name = Inr pg"
  shows "\<exists>sel tdf ps cap eqc sd sdt ed edt n ms dv sg ee tlog cmp.
     dict_get period_options name = Inr sel \<and>
     dict_get timelines sel = Inr tdf \<and>
     period_summary summary_df sel = Inr ps \<and>
     row_getitem (columns summary_df) ps ''initial_capital'' initial_capital = Inr cap \<and>
     getitem tdf ''equity'' equity = Inr eqc \<and>
     row_getitem (columns summary_df) ps ''start_date'' start_date = Inr sd \<and>
     strftime sd = Inr sdt \<and>
     row_getitem (columns summary_df) ps ''end_date'' end_date = Inr ed \<and>
     strftime ed = Inr edt \<and>
     row_getitem (columns summary_df) ps ''rows'' rows = Inr n \<and>
     read_metrics (columns summary_df) ps metric_columns = Inr ms \<and>
     daily_volume tdf = Inr dv \<and>
     getitem tdf ''signal'' signal = Inr sg \<and>
     entries_exits tdf = Inr ee \<and>
     trade_log tdf = Inr tlog \<and>
     comparison_df summary_df = Inr cmp \<and>
     pg = \<lparr>pg_summary = ps, pg_initial_capital = cap, pg_equity = ffill eqc,
            pg_cum_pnl = cum_pnl (ffill eqc) cap, pg_start = sdt, pg_end = edt,
            pg_rows = n, pg_metrics = ms, pg_daily_volume = dv,
            pg_pct_change = fillna0_cells (pct_change (ffill eqc)),
            pg_vol_rolling = rolling_std 30 (fillna0_cells (pct_change (ffill eqc))),
            pg_signals = fillna0 sg, pg_markers = trade_markers ee,
            pg_trade_log = show_trade_log (columns tdf) tlog,
            pg_comparison = cmp\<rparr>"
  using assms unfolding render_def and_then_Inr by (elim exE conjE) (intro exI conjI, assumption+, simp)

lemma render_Inr_steps:
  assumes r: "render summary_df timelines name = Inr pg"
    and s: "period_options name = Some sel"
    and t: "timelines sel = Some tdf"
  shows "period_summary summary_df sel = Inr (pg_summary pg)"
    and "row_getitem (columns summary_df) (pg_summary pg) ''initial_capital'' initial_capital
           = Inr (pg_initial_capital pg)"
    and "getitem tdf ''equity'' equity = Inr (map equity (records tdf))"
    and "pg_equity pg = ffill (map equity (records tdf))"
    and "pg_cum_pnl pg = cum_pnl (ffill (map equity (records tdf))) (pg_initial_capital pg)"
    and "row_getitem (columns summary_df) (pg_summary pg) ''start_date'' start_date
           = Inr (Some (pg_start pg))"
    and "row_getitem (columns summary_df) (pg_summary pg) ''end_date'' end_date
           = Inr (Some (pg_end pg))"
    and "row_getitem (columns summary_df) (pg_summary pg) ''rows'' rows = Inr (pg_rows pg)"
    and "read_metrics (columns summary_df) (pg_summary pg) metric_columns = Inr (pg_metrics pg)"
    and "daily_volume tdf = Inr (pg_daily_volume pg)"
    and "getitem tdf ''signal'' signal = Inr (map signal (records tdf))"
    and "pg_signals pg = fillna0 (map signal (records tdf))"
    and "entries_exits tdf = Inr (filter (\<lambda>r. is_entry r \<or> is_exit r) (records tdf))"
    and "pg_markers pg = trade_markers (filter (\<lambda>r. is_entry r \<or> is_exit r) (records tdf))"
    and "trade_log tdf = Inr (filter (\<lambda>r. is_entry r \<or> is_exit r) (records tdf))"
    and "pg_trade_log pg =
           show_trade_log (columns tdf) (filter (\<lambda>r. is_entry r \<or> is_exit r) (records tdf))"
    and "comparison_df summary_df = Inr (pg_comparison pg)"
    and "pg_pct_change pg = fillna0_cells (pct_change (ffill (map equity (records tdf))))"
    and "pg_vol_rolling pg = rolling_std 30 (pg_pct_change pg)"
proof -
  from render_InrD[OF r] obtain sel' tdf' ps cap eqc sd sdt ed edt n ms dv sg ee tlog cmp where
    a1: "dict_get period_options name = Inr sel'" and
    a2: "dict_get timelines sel' = Inr tdf'" and
    a3: "period_summary summary_df sel' = Inr ps" and
    a4: "row_getitem (columns summary_df) ps ''initial_capital'' initial_capital = Inr cap" and
    a5: "getitem tdf' ''equity'' equity = Inr eqc" and
    a6: "row_getitem (columns summary_df) ps ''start_date'' start_date = Inr sd" and
    a7: "strftime sd = Inr sdt" and
    a8: "row_getitem (columns summary_df) ps ''end_date'' end_date = Inr ed" and
    a9: "strftime ed = Inr edt" and
    a10: "row_getitem (columns summary_df) ps ''rows'' rows = Inr n" and
    a11: "read_metrics (columns summary_df) ps metric_columns = Inr ms" and
    a12: "daily_volume tdf' = Inr dv" and
    a13: "getitem tdf' ''signal'' signal = Inr sg" and
    a14: "entries_exits tdf' = Inr ee" and
    a15: "trade_log tdf' = Inr tlog" and
    a16: "comparison_df summary_df = Inr cmp" and
    pg: "pg = \<lparr>pg_summary = ps, pg_initial_capital = cap, pg_equity = ffill eqc,
            pg_cum_pnl = cum_pnl (ffill eqc) cap, pg_start = sdt, pg_end = edt,
            pg_rows = n, pg_metrics = ms, pg_daily_volume = dv,
            pg_pct_change = fillna0_cells (pct_change (ffill eqc)),
            pg_vol_rolling = rolling_std 30 (fillna0_cells (pct_change (ffill eqc))),
            pg_signals = fillna0 sg, pg_markers = trade_markers ee,
            pg_trade_log = show_trade_log (columns tdf') tlog,
            pg_comparison = cmp\<rparr>"
    by (elim exE conjE) (rule that)
  from a1 s have sel: "sel' = sel" by (simp add: dict_get_Inr)
  from a2 t sel have tdf: "tdf' = tdf" by (simp add: dict_get_Inr)
  from a5 tdf have eqc: "eqc = map equity (records tdf)" by (simp add: getitem_Inr)
  from a13 tdf have sg: "sg = map signal (records tdf)" by (simp add: getitem_Inr)
  from a14 tdf have ee: "ee = filter (\<lambda>r. is_entry r \<or> is_exit r) (records tdf)"
    by (simp add: entries_exits_Inr)
  from a15 tdf have tlog: "tlog = filter (\<lambda>r. is_entry r \<or> is_exit r) (records tdf)"
    by (simp add: trade_log_Inr)
  from a7 have sd: "sd = Some sdt" by (simp add: strftime_Inr)
  from a9 have ed: "ed = Some edt" by (simp add: strftime_Inr)
  have f: "pg_summary pg = ps" "pg_initial_capital pg = cap" "pg_equity pg = ffill eqc"
    "pg_cum_pnl pg = cum_pnl (ffill eqc) cap" "pg_start pg = sdt" "pg_end pg = edt"
    "pg_rows pg = n" "pg_metrics pg = ms" "pg_daily_volume pg = dv"
    "pg_signals pg = fillna0 sg" "pg_markers pg = trade_markers ee"
    "pg_trade_log pg = show_trade_log (columns tdf') tlog" "pg_comparison pg = cmp"
    "pg_pct_change pg = fillna0_cells (pct_change (ffill eqc))"
    "pg_vol_rolling pg = rolling_std 30 (fillna0_cells (pct_change (ffill eqc)))"
    by (simp_all add: pg)
  show "period_summary summary_df sel = Inr (pg_summary pg)" using a3 sel f(1) by simp
  show "row_getitem (columns summary_df) (pg_summary pg) ''initial_capital'' initial_capital
           = Inr (pg_initial_capital pg)" using a4 f(1,2) by simp
  show "getitem tdf ''equity'' equity = Inr (map equity (records tdf))" using a5 tdf eqc by simp
  show "pg_equity pg = ffill (map equity (records tdf))" using f(3) eqc by simp
  show "pg_cum_pnl pg = cum_pnl (ffill (map equity (records tdf))) (pg_initial_capital pg)"
    using f(2,4) eqc by simp
  show "row_getitem (columns summary_df) (pg_summary pg) ''start_date'' start_date
           = Inr (Some (pg_start pg))" using a6 sd f(1,5) by simp
  show "row_getitem (columns summary_df) (pg_summary pg) ''end_date'' end_date
           = Inr (Some (pg_end pg))" using a8 ed f(1,6) by simp
  show "row_getitem (columns summary_df) (pg_summary pg) ''rows'' rows = Inr (pg_rows pg)"
    using a10 f(1,7) by simp
  show "read_metrics (columns summary_df) (pg_summary pg) metric_columns = Inr (pg_metrics pg)"
    using a11 f(1,8) by simp
  show "daily_volume tdf = Inr (pg_daily_volume pg)" using a12 tdf f(9) by simp
  show "getitem tdf ''signal'' signal = Inr (map signal (records tdf))" using a13 tdf sg by simp
  show "pg_signals pg = fillna0 (map signal (records tdf))" using f(10) sg by simp
  show "entries_exits tdf = Inr (filter (\<lambda>r. is_entry r \<or> is_exit r) (records tdf))"
    using a14 tdf ee by simp
  show "pg_markers pg = trade_markers (filter (\<lambda>r. is_entry r \<or> is_exit r) (records tdf))"
    using f(11) ee by simp
  show "trade_log tdf = Inr (filter (\<lambda>r. is_entry r \<or> is_exit r) (records tdf))"
    using a15 tdf tlog by simp
  show "pg_trade_log pg =
           show_trade_log (columns tdf) (filter (\<lambda>r. is_entry r \<or> is_exit r) (records tdf))"
    using f(12) tdf tlog by simp
  show "comparison_df summary_df = Inr (pg_comparison pg)" using a16 f(13) by simp
  show "pg_pct_change pg = fillna0_cells (pct_change (ffill (map equity (records tdf))))"
    using f(14) eqc by simp
  show "pg_vol_rolling pg = rolling_std 30 (pg_pct_change pg)"
    using f(14,15) by simp
qed

lemma render_Inr_comparison:
  assumes "render summary_df timelines name = Inr pg"
  shows "comparison_df summary_df = Inr (pg_comparison pg)"
proof -
  from render_InrD[OF assms] obtain cmp where
    "comparison_df summary_df = Inr cmp" and "pg_comparison pg = cmp"
    by (elim exE conjE) simp
  then show ?thesis by simp
qed

lemma render_columns_present:
  assumes r: "render summary_df timelines name = Inr pg"
    and s: "period_options name = Some sel"
    and t: "timelines sel = Some tdf"
  shows "(\<forall>c\<in>set read_timeline_columns. c \<in> set (columns tdf)) \<and>
         (\<forall>c\<in>set read_summary_columns. c \<in> set (columns summary_df))"
proof -
  note st = render_Inr_steps[OF r s t]
  from st(3) have 1: "''equity'' \<in> set (columns tdf)" by (simp add: getitem_Inr)
  from st(10) have 2: "''volume_usd'' \<in> set (columns tdf)" by (rule daily_volume_Inr_col)
  from st(11) have 3: "''signal'' \<in> set (columns tdf)" by (simp add: getitem_Inr)
  from st(13) have 4: "''is_entry'' \<in> set (columns tdf)" "''is_exit'' \<in> set (columns tdf)"
    by (simp_all add: entries_exits_Inr)
  from st(1) have 5: "''period'' \<in> set (columns summary_df)" by (simp add: period_summary_Inr)
  from st(2) have 6: "''initial_capital'' \<in> set (columns summary_df)" by (simp add: row_getitem_Inr)
  from st(6) have 7: "''start_date'' \<in> set (columns summary_df)" by (simp add: row_getitem_Inr)
  from st(7) have 8: "''end_date'' \<in> set (columns summary_df)" by (simp add: row_getitem_Inr)
  from st(8) have 9: "''rows'' \<in> set (columns summary_df)" by (simp add: row_getitem_Inr)
  from read_metrics_Inr[OF st(9)]
  have "\<forall>m\<in>set metric_columns. fst (snd m) \<in> set (columns summary_df)" by (rule conjunct1)
  then have 10: "\<forall>c\<in>set (map (\<lambda>(title, name, field). name) metric_columns). c \<in> set (columns summary_df)"
    by (auto simp: case_prod_beta)
  from 1 2 3 4 have a: "\<forall>c\<in>set read_timeline_columns. c \<in> set (columns tdf)"
    by (simp add: read_timeline_columns_def)
  from 5 6 7 8 9 10 have b: "\<forall>c\<in>set read_summary_columns. c \<in> set (columns summary_df)"
    unfolding read_summary_columns_def by (simp only: set_append Un_iff set_simps insert_iff empty_iff) blast
  from a b show ?thesis ..
qed

lemma render_other_columns:
  fixes tdf' :: "timeline_row dataframe"
  assumes r: "render summary_df timelines name = Inr pg"
    and s: "period_options name = Some sel"
    and t: "timelines sel = Some tdf"
    and recs: "records tdf' = records tdf"
    and agree: "\<forall>c\<in>set read_timeline_columns. (c \<in> set (columns tdf')) = (c \<in> set (columns tdf))"
  shows "\<exists>pg'. render summary_df (timelines(sel \<mapsto> tdf')) name = Inr pg'"
proof -
  note st = render_Inr_steps[OF r s t]
  from agree have cols:
    "(''equity'' \<in> set (columns tdf')) = (''equity'' \<in> set (columns tdf))"
    "(''volume_usd'' \<in> set (columns tdf')) = (''volume_usd'' \<in> set (columns tdf))"
    "(''signal'' \<in> set (columns tdf')) = (''signal'' \<in> set (columns tdf))"
    "(''is_entry'' \<in> set (columns tdf')) = (''is_entry'' \<in> set (columns tdf))"
    "(''is_exit'' \<in> set (columns tdf')) = (''is_exit'' \<in> set (columns tdf))"
    by (simp_all add: read_timeline_columns_def)
  have g1: "getitem tdf' ''equity'' equity = getitem tdf ''equity'' equity"
    and g2: "getitem tdf' ''volume_usd'' volume_usd = getitem tdf ''volume_usd'' volume_usd"
    and g3: "getitem tdf' ''signal'' signal = getitem tdf ''signal'' signal"
    and g4: "getitem tdf' ''is_entry'' is_entry = getitem tdf ''is_entry'' is_entry"
    and g5: "getitem tdf' ''is_exit'' is_exit = getitem tdf ''is_exit'' is_exit"
    using cols recs by (simp_all add: getitem_def)
  have 1: "getitem tdf' ''equity'' equity = Inr (map equity (records tdf))"
    using g1 st(3) by simp
  have 2: "daily_volume tdf' = Inr (pg_daily_volume pg)"
    using g2 st(10) recs by (simp add: daily_volume_def)
  have 3: "getitem tdf' ''signal'' signal = Inr (map signal (records tdf))"
    using g3 st(11) by simp
  have 4: "entries_exits tdf' = Inr (filter (\<lambda>r. is_entry r \<or> is_exit r) (records tdf))"
    using g4 g5 st(13) recs by (simp add: entries_exits_def)
  have 5: "trade_log tdf' = Inr (filter (\<lambda>r. is_entry r \<or> is_exit r) (records tdf))"
    using g4 g5 st(15) recs by (simp add: trade_log_def)
  have 6: "dict_get period_options name = Inr sel" using s by (simp add: dict_get_Inr)
  have 7: "dict_get (timelines(sel \<mapsto> tdf')) sel = Inr tdf'" by (simp add: dict_get_Inr)
  have 8: "strftime (Some (pg_start pg)) = Inr (pg_start pg)" "strftime (Some (pg_end pg)) = Inr (pg_end pg)"
    by (simp_all add: strftime_def)
  show ?thesis
    unfolding render_def
    by (simp only: 1 2 3 4 5 6 7 8 st(1,2,6,7,8,9,17) and_then_Inr_simp) blast
qed

text \<open>The percent change and the rolling deviation.\<close>

lemma pct_change_length: "length (pct_change xs) = length xs"
  by (cases xs) (simp_all add: pct_change_def)

lemma pct_change_0: "xs \<noteq> [] \<Longrightarrow> pct_change xs ! 0 = NaN"
  by (cases xs) (simp_all add: pct_change_def)

lemma pct_change_Suc:
  "Suc t < length xs \<Longrightarrow> pct_change xs ! Suc t = pct_step (xs ! t) (xs ! Suc t)"
proof (cases xs)
  case Nil then show "Suc t < length xs \<Longrightarrow> ?thesis" by simp
next
  case (Cons x rest)
  assume "Suc t < length xs"
  with Cons have t: "t < length rest" by simp
  then have "map2 pct_step xs rest ! t = pct_step (xs ! t) (rest ! t)"
    using Cons by simp
  with Cons show ?thesis by (simp add: pct_change_def)
qed

lemma pct_step_ratio:
  "p \<noteq> 0 \<Longrightarrow> pct_step (Some p) (Some c) = Fin ((c - p) / p)"
  by (simp add: pct_step_def diff_divide_distrib)

lemma fillna0_cells_nth:
  "t < length cs \<Longrightarrow> fillna0_cells cs ! t = (case cs ! t of NaN \<Rightarrow> Fin 0 | c \<Rightarrow> c)"
  by (simp add: fillna0_cells_def split: float_cell.splits)

lemma fillna0_cells_length: "length (fillna0_cells cs) = length cs"
  by (simp add: fillna0_cells_def)

lemma rolling_std_length: "length (rolling_std w cs) = length cs"
  by (simp add: rolling_std_def)

lemma rolling_std_early:
  "t < length cs \<Longrightarrow> t + 1 < w \<Longrightarrow> rolling_std w cs ! t = NaN"
  by (simp add: rolling_std_def)

lemma those_observation_Fin: "those (map (observation \<circ> Fin) xs) = Some xs"
  by (induction xs) (simp_all add: observation_def)

lemma rolling_std_full:
  assumes "t < length cs" and "w \<le> t + 1" and "2 \<le> w"
    and "take w (drop (t + 1 - w) cs) = map Fin xs"
  shows "rolling_std w cs ! t = Fin (sample_std xs)"
  using assms by (simp add: rolling_std_def those_observation_Fin)

text \<open>When every step of the pass succeeds.\<close>

lemma read_metrics_total:
  "\<forall>m\<in>set ms. fst (snd m) \<in> set labels \<Longrightarrow>
   read_metrics labels r ms = Inr (map (\<lambda>(title, name, field). (title, field r)) ms)"
proof (induction ms)
  case Nil then show ?case by simp
next
  case (Cons m ms)
  obtain title name field where m: "m = (title, name, field)" by (cases m)
  with Cons show ?case by (simp add: row_getitem_def)
qed

lemma comparison_loop_total:
  assumes "\<forall>r\<in>set rs. period_names (period r) \<noteq> None"
    and "rs \<noteq> [] \<longrightarrow>
           {''period'', ''total_return_pct'', ''sharpe_ratio'', ''max_drawdown_pct'',
            ''win_rate_pct'', ''trades_per_year''} \<subseteq> set labels"
  shows "\<exists>out. comparison_loop labels rs acc = Inr out"
  using assms
proof (induction rs arbitrary: acc)
  case Nil then show ?case by simp
next
  case (Cons r rs)
  from Cons.prems(1) obtain name where n: "period_names (period r) = Some name" by auto
  from Cons.prems(2) have cols:
    "{''period'', ''total_return_pct'', ''sharpe_ratio'', ''max_drawdown_pct'',
      ''win_rate_pct'', ''trades_per_year''} \<subseteq> set labels" by simp
  from Cons.prems(1) have "\<forall>r\<in>set rs. period_names (period r) \<noteq> None" by simp
  moreover from cols have "rs \<noteq> [] \<longrightarrow>
           {''period'', ''total_return_pct'', ''sharpe_ratio'', ''max_drawdown_pct'',
            ''win_rate_pct'', ''trades_per_year''} \<subseteq> set labels" by simp
  ultimately have "\<exists>out. comparison_loop labels rs
      (acc @ [\<lparr>c_period = name, c_return = total_return_pct r, c_sharpe = sharpe_ratio r,
        c_max_dd = max_drawdown_pct r, c_win_rate = win_rate_pct r,
        c_trades_year = trades_per_year r\<rparr>]) = Inr out"
    by (rule Cons.IH)
  with n cols show ?case by (simp add: row_getitem_def dict_get_def)
qed

lemma comparison_loop_periods:
  "comparison_loop labels rs acc = Inr out \<Longrightarrow> \<forall>r\<in>set rs. period_names (period r) \<noteq> None"
proof (induction rs arbitrary: acc)
  case Nil then show ?case by simp
next
  case (Cons r rs)
  from Cons.prems obtain name acc' where
    n: "period_names (period r) = Some name"
    and rest: "comparison_loop labels rs acc' = Inr out"
    by (auto simp: and_then_Inr row_getitem_Inr dict_get_Inr)
  from Cons.IH[OF rest] n show ?case by simp
qed

lemma render_total:
  assumes s: "period_options name = Some sel"
    and t: "timelines sel = Some tdf"
    and f: "find (\<lambda>r. period r = sel) (records summary_df) = Some row"
    and tc: "\<forall>c\<in>set read_timeline_columns. c \<in> set (columns tdf)"
    and sc: "\<forall>c\<in>set read_summary_columns. c \<in> set (columns summary_df)"
    and sd: "start_date row \<noteq> None"
    and ed: "end_date row \<noteq> None"
    and pn: "\<forall>r\<in>set (records summary_df). period_names (period r) \<noteq> None"
  shows "\<exists>pg. render summary_df timelines name = Inr pg"
proof -
  from tc have tcols: "''equity'' \<in> set (columns tdf)" "''volume_usd'' \<in> set (columns tdf)"
    "''signal'' \<in> set (columns tdf)" "''is_entry'' \<in> set (columns tdf)"
    "''is_exit'' \<in> set (columns tdf)"
    by (simp_all add: read_timeline_columns_def)
  from sc have scols: "''period'' \<in> set (columns summary_df)"
    "''initial_capital'' \<in> set (columns summary_df)" "''start_date'' \<in> set (columns summary_df)"
    "''end_date'' \<in> set (columns summary_df)" "''rows'' \<in> set (columns summary_df)"
    and mc: "\<forall>c\<in>set (map (\<lambda>(title, name, field). name) metric_columns). c \<in> set (columns summary_df)"
    by (simp_all add: read_summary_columns_def)
  from mc have mc': "\<forall>m\<in>set metric_columns. fst (snd m) \<in> set (columns summary_df)"
    by (auto simp: case_prod_beta)
  from mc have cc: "{''period'', ''total_return_pct'', ''sharpe_ratio'', ''max_drawdown_pct'',
      ''win_rate_pct'', ''trades_per_year''} \<subseteq> set (columns summary_df)"
    using scols(1) by (simp add: metric_columns_def)
  from sd obtain sdt where sdt: "start_date row = Some sdt" by auto
  from ed obtain edt where edt: "end_date row = Some edt" by auto
  have 1: "dict_get period_options name = Inr sel" using s by (simp add: dict_get_Inr)
  have 2: "dict_get timelines sel = Inr tdf" using t by (simp add: dict_get_Inr)
  have 3: "period_summary summary_df sel = Inr row"
    using scols(1) f by (simp add: period_summary_Inr)
  have 4: "row_getitem (columns summary_df) row ''initial_capital'' initial_capital = Inr (initial_capital row)"
    "row_getitem (columns summary_df) row ''start_date'' start_date = Inr (Some sdt)"
    "row_getitem (columns summary_df) row ''end_date'' end_date = Inr (Some edt)"
    "row_getitem (columns summary_df) row ''rows'' rows = Inr (rows row)"
    using scols sdt edt by (simp_all add: row_getitem_def)
  have 5: "strftime (Some sdt) = Inr sdt" "strftime (Some edt) = Inr edt"
    by (simp_all add: strftime_def)
  have 6: "getitem tdf ''equity'' equity = Inr (map equity (records tdf))"
    "getitem tdf ''signal'' signal = Inr (map signal (records tdf))"
    using tcols by (simp_all add: getitem_def)
  have 7: "read_metrics (columns summary_df) row metric_columns
             = Inr (map (\<lambda>(title, name, field). (title, field row)) metric_columns)"
    by (rule read_metrics_total[OF mc'])
  from daily_volume_groups[OF tcols(2)] obtain dv where 8: "daily_volume tdf = Inr dv" by blast
  have 9: "entries_exits tdf = Inr (filter (\<lambda>r. is_entry r \<or> is_exit r) (records tdf))"
    using tcols by (simp add: entries_exits_Inr)
  have 10: "trade_log tdf = Inr (filter (\<lambda>r. is_entry r \<or> is_exit r) (records tdf))"
    using tcols by (simp add: trade_log_Inr)
  from comparison_loop_total[OF pn, of "columns summary_df" "[]"] cc
  obtain cmp where 11: "comparison_df summary_df = Inr cmp"
    by (auto simp: comparison_df_def)
  show ?thesis
    unfolding render_def
    by (simp only: 1 2 3 4 5 6 7 8 9 10 11 and_then_Inr_simp) blast
qed

section \<open>The examples, evaluated\<close>

lemmas demo_defs =
  demo_loaded_def demo_trimmed_def demo_bars_def demo_summary_def summary_of_def bar_def
  timeline_columns_def summary_columns_def

lemmas render_defs =
  render_def dict_get_def period_options_def period_names_def period_summary_def getitem_def
  row_getitem_def boolean_select_def iloc0_def strftime_def metric_columns_def
  daily_volume_def date_of_def nan_to_zero_def entries_exits_def trade_log_def
  trade_markers_def show_trade_log_def available_cols_def display_cols_def comparison_df_def
  ffill_def cum_pnl_def fsub_def fillna0_def pct_change_def pct_step_def fillna0_cells_def
  rolling_std_def

lemmas load_defs =
  load_backtest_data_def read_csv_def to_datetime_col_def getitem_def periods_def
  trim_warmup_def gt_zero_col_def idxmax_def argmax_def loc_from_def timestamp_bool_def
  gt_zero_def

lemma paths_distinct:
  "timeline_path ''last_month'' \<noteq> timeline_path ''full_3mo''"
  "timeline_path ''last_month'' \<noteq> timeline_path ''prior_2mo''"
  "timeline_path ''full_3mo'' \<noteq> timeline_path ''prior_2mo''"
  by (simp_all add: timeline_path_def)

lemma trim_demo: "trim_warmup [] demo_timeline = Inr demo_trimmed"
  by (simp add: trim_warmup_def getitem_def gt_zero_col_def idxmax_def argmax_def loc_from_def
      timestamp_bool_def demo_timeline_def demo_trimmed_def demo_bars_def timeline_columns_def
      bar_def gt_zero_def)

lemma trim_flat: "trim_warmup [] flat_timeline = Inr flat_timeline"
  by (simp add: trim_warmup_def getitem_def gt_zero_col_def idxmax_def argmax_def loc_from_def
      timestamp_bool_def flat_timeline_def timeline_columns_def bar_def gt_zero_def)

lemma load_demo:
  "load_backtest_data demo_disk =
     Inr (demo_summary,
          [''last_month'' \<mapsto> demo_trimmed, ''full_3mo'' \<mapsto> demo_trimmed,
           ''prior_2mo'' \<mapsto> demo_trimmed])"
  using paths_distinct
  by (simp add: load_backtest_data_def demo_disk_def read_csv_def to_datetime_col_def getitem_def
      periods_def trim_demo demo_summary_def summary_columns_def)

lemma load_flat:
  "load_backtest_data flat_disk =
     Inr (demo_summary,
          [''last_month'' \<mapsto> flat_timeline, ''full_3mo'' \<mapsto> demo_trimmed,
           ''prior_2mo'' \<mapsto> demo_trimmed])"
  using paths_distinct
  by (simp add: load_backtest_data_def flat_disk_def read_csv_def to_datetime_col_def getitem_def
      periods_def trim_demo trim_flat demo_summary_def summary_columns_def)

text \<open>
  Files that exist and that the loader rejects for their cells: a word in the equity
  column, a start date that is no date, a summary file that is no table.
\<close>

lemma load_worded: "load_backtest_data worded_disk = Inl TypeError"
  using paths_distinct
  by (simp add: worded_disk_def load_defs demo_summary_def summary_columns_def
      demo_timeline_def timeline_columns_def)

lemma load_undated: "load_backtest_data undated_disk = Inl ValueError"
  by (simp add: undated_disk_def demo_disk_def load_defs demo_summary_def summary_columns_def)

lemma load_garbled: "load_backtest_data garbled_disk = Inl ValueError"
  by (simp add: garbled_disk_def demo_disk_def load_defs)

lemma render_demo: "render demo_summary demo_loaded ''Last Month'' = Inr demo_page"
  by (simp add: render_defs demo_defs demo_page_def)

lemma period_option_last_month: "period_options ''Last Month'' = Some ''last_month''"
  by (simp add: period_options_def)

lemma demo_loaded_last_month: "demo_loaded ''last_month'' = Some demo_trimmed"
  by (simp add: demo_loaded_def)

lemma demo_summary_complete:
  "\<forall>c\<in>set read_summary_columns. c \<in> set (columns demo_summary)"
  by (simp add: read_summary_columns_def metric_columns_def demo_summary_def summary_columns_def)

lemma demo_periods_known:
  "\<forall>r\<in>set (records demo_summary). period_names (period r) \<noteq> None"
  by (simp add: demo_summary_def summary_of_def period_names_def)

lemma demo_find_last_month:
  "find (\<lambda>r. period r = ''last_month'') (records demo_summary) = Some (summary_of ''last_month'' 1000)"
  by (simp add: demo_summary_def summary_of_def)

lemma steady_loaded_last_month: "steady_loaded ''last_month'' = Some steady_timeline"
  by (simp add: steady_loaded_def)

lemma render_steady: "render demo_summary steady_loaded ''Last Month'' = Inr steady_page"
proof -
  have "\<forall>c\<in>set read_timeline_columns. c \<in> set (columns steady_timeline)"
    by (simp add: read_timeline_columns_def steady_timeline_def timeline_columns_def)
  from render_total[where timelines = steady_loaded and tdf = steady_timeline,
      OF period_option_last_month steady_loaded_last_month demo_find_last_month this
        demo_summary_complete _ _ demo_periods_known]
  have "\<exists>pg. render demo_summary steady_loaded ''Last Month'' = Inr pg"
    by (simp add: summary_of_def)
  then show ?thesis by (auto simp: steady_page_def)
qed

lemma steady_equity:
  "ffill (map equity (records steady_timeline)) = replicate 29 (Some 100) @ [Some 110]"
  by (simp add: steady_timeline_def steady_bars_def bar_def ffill_def upt_rec_numeral
      numeral_eq_Suc)

lemma steady_pct:
  "fillna0_cells (pct_change (replicate 29 (Some 100) @ [Some 110]))
     = map Fin (replicate 29 0 @ [1 / 10])"
  by (simp add: pct_change_def pct_step_def fillna0_cells_def numeral_eq_Suc)

lemma steady_std: "sample_std (replicate 29 0 @ [1 / 10]) = sqrt (1 / 3000)"
  by (simp add: sample_std_def Let_def sum_list_replicate power2_eq_square field_simps)

section \<open>The claims\<close>

subsection \<open>C1: the warm-up trim\<close>

text \<open>
  Claim C1 says that the trim removes all leading rows with zero equity and that the
  first retained row has non-zero equity. As amended: for a loaded timeline whose
  timestamps are pairwise distinct, if some row has positive equity then the returned
  table starts at the first such row, so the first retained row has positive, hence
  non-zero, equity, and the leading zero-equity rows all lie in the removed part; if
  no row has positive equity the table is returned as it was read.
\<close>

theorem load_trim_first_positive:
  assumes ld: "load_backtest_data fs = Inr (summary_df, timelines)"
    and p: "p \<in> set periods"
    and raw: "timeline_files fs (timeline_path p) = Some (CSV raw tcols)"
    and d: "distinct (map idx (records raw))"
  shows "if \<exists>r\<in>set (records raw). gt_zero (equity r)
         then timelines p =
                Some (raw\<lparr>records := dropWhile (\<lambda>r. \<not> gt_zero (equity r)) (records raw)\<rparr>) \<and>
              (\<exists>x. equity (hd (dropWhile (\<lambda>r. \<not> gt_zero (equity r)) (records raw))) = Some x \<and> 0 < x) \<and>
              length (takeWhile (\<lambda>r. equity r = Some 0) (records raw))
                \<le> length (takeWhile (\<lambda>r. \<not> gt_zero (equity r)) (records raw))
         else timelines p = Some raw"
proof -
  from load_backtest_data_Inr[OF ld]
  have "load_timelines fs periods Map.empty = Inr timelines" by simp
  from load_timelines_member[OF this p] raw obtain out where
    t: "trim_warmup tcols raw = Inr out" and o: "timelines p = Some out" by auto
  from trim_warmup_Inr_column[OF t]
  have eq: "''equity'' \<in> set (columns raw)" and nt: "''equity'' \<notin> set tcols" by simp_all
  let ?P = "\<lambda>r. \<not> gt_zero (equity r)"
  show ?thesis
  proof (cases "\<exists>r\<in>set (records raw). gt_zero (equity r)")
    case True
    from trim_warmup_positive[OF eq nt d True] t o
    have 1: "timelines p = Some (raw\<lparr>records := dropWhile ?P (records raw)\<rparr>)" by simp
    from True have "dropWhile ?P (records raw) \<noteq> []" by (simp add: dropWhile_eq_Nil_conv)
    then have "\<not> ?P (hd (dropWhile ?P (records raw)))" by (rule hd_dropWhile)
    then have 2: "\<exists>x. equity (hd (dropWhile ?P (records raw))) = Some x \<and> 0 < x"
      by (auto simp: gt_zero_def split: option.splits)
    have "\<And>r. equity r = Some 0 \<Longrightarrow> ?P r" by (simp add: gt_zero_def)
    then have 3: "length (takeWhile (\<lambda>r. equity r = Some 0) (records raw))
                \<le> length (takeWhile ?P (records raw))"
      by (rule length_takeWhile_mono)
    from True 1 2 3 show ?thesis by simp
  next
    case False
    then have "\<forall>r\<in>set (records raw). \<not> gt_zero (equity r)" by simp
    from trim_warmup_no_positive_Inr[OF t this] o False show ?thesis by simp
  qed
qed

text \<open>
  The claim as stated fails on a timeline that never has positive equity: \<open>idxmax\<close>
  then answers the first label and the slice keeps every row, the first of them with
  zero equity.
\<close>

theorem load_keeps_all_zero_timeline:
  "timeline_files flat_disk (timeline_path ''last_month'') = Some (CSV flat_timeline []) \<and>
   load_backtest_data flat_disk =
     Inr (demo_summary,
          [''last_month'' \<mapsto> flat_timeline, ''full_3mo'' \<mapsto> demo_trimmed,
           ''prior_2mo'' \<mapsto> demo_trimmed]) \<and>
   equity (hd (records flat_timeline)) = Some 0"
proof -
  have "timeline_files flat_disk (timeline_path ''last_month'') = Some (CSV flat_timeline [])"
    using paths_distinct by (simp add: flat_disk_def)
  moreover have "equity (hd (records flat_timeline)) = Some 0"
    by (simp add: flat_timeline_def bar_def)
  ultimately show ?thesis using load_flat by simp
qed

text \<open>The amended statement on the demo files: the two warm-up bars go.\<close>

theorem load_trim_first_positive_witness:
  "load_backtest_data demo_disk = Inr (demo_summary, demo_loaded) \<and>
   ''last_month'' \<in> set periods \<and>
   timeline_files demo_disk (timeline_path ''last_month'') = Some (CSV demo_timeline []) \<and>
   distinct (map idx (records demo_timeline)) \<and>
   (\<exists>r\<in>set (records demo_timeline). gt_zero (equity r)) \<and>
   demo_loaded ''last_month'' = Some (demo_timeline\<lparr>records := demo_bars\<rparr>) \<and>
   equity (hd demo_bars) = Some 1000"
proof -
  have h1: "load_backtest_data demo_disk = Inr (demo_summary, demo_loaded)"
    using load_demo by (simp add: demo_loaded_def)
  have h2: "''last_month'' \<in> set periods" by (simp add: periods_def)
  have h3: "timeline_files demo_disk (timeline_path ''last_month'') = Some (CSV demo_timeline [])"
    using paths_distinct by (simp add: demo_disk_def)
  have h4: "distinct (map idx (records demo_timeline))"
    by (simp add: demo_timeline_def demo_bars_def bar_def)
  have h5: "\<exists>r\<in>set (records demo_timeline). gt_zero (equity r)"
    by (simp add: demo_timeline_def demo_bars_def bar_def gt_zero_def)
  have h6: "dropWhile (\<lambda>r. \<not> gt_zero (equity r)) (records demo_timeline) = demo_bars"
    by (simp add: demo_timeline_def demo_bars_def bar_def gt_zero_def)
  have h7: "equity (hd demo_bars) = Some 1000" by (simp add: demo_bars_def bar_def)
  from load_trim_first_positive[OF h1 h2 h3 h4] h5 h6
  have "demo_loaded ''last_month'' = Some (demo_timeline\<lparr>records := demo_bars\<rparr>)"
    by simp
  with h1 h2 h3 h4 h5 h7 show ?thesis by (intro conjI)
qed

subsection \<open>C2: the comparison table\<close>

text \<open>
  Claim C2 says that the comparison table has exactly one row per distinct period of the
  summary. As amended: when the pass completes, the comparison table has one row per row
  of the summary, in the same order, under the display name of that row's period and
  with its five figures; so for every period it has as many rows as the summary has for
  that period, which is exactly one when the summary repeats no period.
\<close>

theorem comparison_one_row_per_summary_row:
  assumes r: "render summary_df timelines name = Inr pg"
  shows "list_all2 (\<lambda>row c. period_names (period row) = Some (c_period c) \<and>
                      c_return c = total_return_pct row \<and> c_sharpe c = sharpe_ratio row \<and>
                      c_max_dd c = max_drawdown_pct row \<and> c_win_rate c = win_rate_pct row \<and>
                      c_trades_year c = trades_per_year row)
           (records summary_df) (pg_comparison pg) \<and>
         (\<forall>p. length (filter (\<lambda>c. period_names p = Some (c_period c)) (pg_comparison pg))
                = length (filter (\<lambda>row. period row = p) (records summary_df))) \<and>
         (distinct (map period (records summary_df)) \<longrightarrow>
            (\<forall>row\<in>set (records summary_df).
               length (filter (\<lambda>c. period_names (period row) = Some (c_period c)) (pg_comparison pg)) = 1))"
proof -
  from render_Inr_comparison[OF r]
  have "comparison_loop (columns summary_df) (records summary_df) [] = Inr (pg_comparison pg)"
    by (simp add: comparison_df_def)
  from comparison_loop_rows[OF this]
  have l: "list_all2 (\<lambda>row c. period_names (period row) = Some (c_period c) \<and>
                      c_return c = total_return_pct row \<and> c_sharpe c = sharpe_ratio row \<and>
                      c_max_dd c = max_drawdown_pct row \<and> c_win_rate c = win_rate_pct row \<and>
                      c_trades_year c = trades_per_year row)
           (records summary_df) (pg_comparison pg)"
    by simp
  have c: "length (filter (\<lambda>c. period_names p = Some (c_period c)) (pg_comparison pg))
                = length (filter (\<lambda>row. period row = p) (records summary_df))" for p
    by (rule count_by_period[OF l])
  have d: "length (filter (\<lambda>c. period_names (period row) = Some (c_period c)) (pg_comparison pg)) = 1"
    if "distinct (map period (records summary_df))" and "row \<in> set (records summary_df)" for row
    using c[of "period row"] count_distinct_one[OF that] by simp
  from l c d show ?thesis by blast
qed

text \<open>
  The claim as stated fails on a summary with two rows for one period: both rows are
  appended.
\<close>

theorem comparison_repeats_duplicate_period:
  "summary_files twice_disk summary_path = Some (CSV twice_summary []) \<and>
   map period (records twice_summary) = [''last_month'', ''last_month''] \<and>
   map_sum id (\<lambda>pg. map c_period (pg_comparison pg)) (dashboard twice_disk ''Last Month'')
     = Inr [''Last Month'', ''Last Month'']"
proof -
  have 1: "summary_files twice_disk summary_path = Some (CSV twice_summary [])"
    by (simp add: twice_disk_def)
  have 2: "map period (records twice_summary) = [''last_month'', ''last_month'']"
    by (simp add: twice_summary_def summary_of_def)
  have "load_backtest_data twice_disk = Inr (twice_summary, demo_loaded)"
    using paths_distinct
    by (simp add: load_backtest_data_def twice_disk_def demo_disk_def read_csv_def
        to_datetime_col_def getitem_def periods_def trim_demo twice_summary_def
        summary_columns_def demo_loaded_def)
  then have 3: "map_sum id (\<lambda>pg. map c_period (pg_comparison pg)) (dashboard twice_disk ''Last Month'')
     = Inr [''Last Month'', ''Last Month'']"
    by (simp add: dashboard_def render_defs demo_defs twice_summary_def)
  from 1 2 3 show ?thesis by (intro conjI)
qed

text \<open>The amended statement on the demo summary, which has one row per period.\<close>

theorem comparison_one_row_per_summary_row_witness:
  "render demo_summary demo_loaded ''Last Month'' = Inr demo_page \<and>
   distinct (map period (records demo_summary)) \<and>
   summary_of ''full_3mo'' 1000 \<in> set (records demo_summary) \<and>
   length (filter (\<lambda>c. period_names ''full_3mo'' = Some (c_period c)) (pg_comparison demo_page)) = 1"
proof -
  have d: "distinct (map period (records demo_summary))"
    by (simp add: demo_summary_def summary_of_def)
  have m: "summary_of ''full_3mo'' 1000 \<in> set (records demo_summary)"
    by (simp add: demo_summary_def)
  have p: "period (summary_of ''full_3mo'' 1000) = ''full_3mo''" by (simp add: summary_of_def)
  from comparison_one_row_per_summary_row[OF render_demo] d m p
  have "length (filter (\<lambda>c. period_names ''full_3mo'' = Some (c_period c)) (pg_comparison demo_page)) = 1"
    by fastforce
  with render_demo d m show ?thesis by (intro conjI)
qed

subsection \<open>C3: missing files\<close>

text \<open>
  Claim C3 says that the loader fails with a not-found condition when any of the four
  files is absent and otherwise returns the summary and the trimmed timelines. As
  amended: provided every one of the four files that exists is a CSV table the loader
  can process (the summary has its two date columns and every cell of them is a date
  or blank; a timeline has the equity column with every cell a number or blank, at
  least one row and pairwise distinct timestamps), the loader raises
  \<open>FileNotFoundError\<close> when any of the four is absent, and otherwise returns the summary
  table as read and, for exactly the three periods, the timeline from its first
  positive-equity row on.
\<close>

theorem load_backtest_data_outcome:
  assumes s_ok: "\<forall>f. summary_files fs summary_path = Some f \<longrightarrow> loadable_summary f"
    and t_ok: "\<forall>p\<in>set periods. \<forall>f. timeline_files fs (timeline_path p) = Some f \<longrightarrow> loadable_timeline f"
  shows "if summary_files fs summary_path = None \<or>
            (\<exists>p\<in>set periods. timeline_files fs (timeline_path p) = None)
         then load_backtest_data fs = Inl FileNotFoundError
         else \<exists>summary_df timelines.
                load_backtest_data fs = Inr (summary_df, timelines) \<and>
                (\<exists>tcols. summary_files fs summary_path = Some (CSV summary_df tcols)) \<and>
                dom timelines = set periods \<and>
                (\<forall>p\<in>set periods. \<exists>raw tcols.
                    timeline_files fs (timeline_path p) = Some (CSV raw tcols) \<and>
                    timelines p = Some (from_first_positive raw))"
proof (cases "summary_files fs summary_path")
  case None
  then show ?thesis by (simp add: load_backtest_data_def read_csv_def)
next
  case (Some f)
  with s_ok have l: "loadable_summary f" by simp
  then obtain sdf stext where f: "f = CSV sdf stext"
    by (cases f) (auto simp: loadable_summary_def)
  from l f have head: "load_backtest_data fs =
      (case load_timelines fs periods Map.empty of Inl e \<Rightarrow> Inl e | Inr tls \<Rightarrow> Inr (sdf, tls))"
    using Some
    by (simp add: load_backtest_data_def read_csv_def to_datetime_col_def getitem_def
        loadable_summary_def)
  show ?thesis
  proof (cases "\<exists>p\<in>set periods. timeline_files fs (timeline_path p) = None")
    case True
    from load_timelines_absent[OF True t_ok]
    have "load_timelines fs periods Map.empty = Inl FileNotFoundError" .
    with head True show ?thesis by simp
  next
    case False
    then have present: "\<forall>p\<in>set periods. \<exists>f. timeline_files fs (timeline_path p) = Some f \<and> loadable_timeline f"
      using t_ok by fastforce
    from load_timelines_total[OF present] obtain tls where
      tls: "load_timelines fs periods Map.empty = Inr tls" by blast
    have "dom tls = set periods" using load_timelines_dom[OF tls] by simp
    moreover have "\<forall>p\<in>set periods. \<exists>raw tcols.
        timeline_files fs (timeline_path p) = Some (CSV raw tcols) \<and>
        tls p = Some (from_first_positive raw)"
    proof
      fix p assume p: "p \<in> set periods"
      from load_timelines_member[OF tls p] obtain raw tcols out where
        r: "timeline_files fs (timeline_path p) = Some (CSV raw tcols)"
        and t: "trim_warmup tcols raw = Inr out"
        and o: "tls p = Some out" by blast
      from present p r have "loadable_timeline (CSV raw tcols)" by fastforce
      from trim_warmup_loadable[OF this] t have "out = from_first_positive raw" by simp
      with r o show "\<exists>raw tcols. timeline_files fs (timeline_path p) = Some (CSV raw tcols) \<and>
        tls p = Some (from_first_positive raw)" by blast
    qed
    moreover have "\<exists>tcols. summary_files fs summary_path = Some (CSV sdf tcols)"
      using Some f by blast
    ultimately show ?thesis using head tls False Some by simp
  qed
qed

text \<open>
  The claim as stated fails when all four files exist and a timeline has a header and no
  rows: \<open>idxmax\<close> raises \<open>ValueError\<close> on the empty column.
\<close>

theorem load_fails_on_empty_timeline:
  "summary_files empty_disk summary_path = Some (CSV demo_summary []) \<and>
   timeline_files empty_disk (timeline_path ''last_month'') = Some (CSV empty_timeline []) \<and>
   timeline_files empty_disk (timeline_path ''full_3mo'') = Some (CSV demo_timeline []) \<and>
   timeline_files empty_disk (timeline_path ''prior_2mo'') = Some (CSV demo_timeline []) \<and>
   load_backtest_data empty_disk = Inl ValueError"
  using paths_distinct
  by (simp add: empty_disk_def empty_timeline_def load_defs demo_summary_def summary_columns_def
      timeline_columns_def)

text \<open>The amended statement on the demo store, and on the store without its last file.\<close>

theorem load_backtest_data_outcome_witness:
  "loadable_summary (CSV demo_summary []) \<and> loadable_timeline (CSV demo_timeline []) \<and>
   load_backtest_data demo_disk = Inr (demo_summary, demo_loaded) \<and>
   timeline_files gap_disk (timeline_path ''prior_2mo'') = None \<and>
   load_backtest_data gap_disk = Inl FileNotFoundError"
proof -
  have ls: "loadable_summary (CSV demo_summary [])"
    by (simp add: loadable_summary_def demo_summary_def summary_columns_def)
  have lt: "loadable_timeline (CSV demo_timeline [])"
    by (simp add: loadable_timeline_def demo_timeline_def demo_bars_def bar_def timeline_columns_def)
  have s1: "\<forall>f. summary_files demo_disk summary_path = Some f \<longrightarrow> loadable_summary f"
    using ls by (simp add: demo_disk_def)
  have t1: "\<forall>p\<in>set periods. \<forall>f. timeline_files demo_disk (timeline_path p) = Some f
              \<longrightarrow> loadable_timeline f"
    using lt paths_distinct by (simp add: demo_disk_def periods_def)
  have s2: "\<forall>f. summary_files gap_disk summary_path = Some f \<longrightarrow> loadable_summary f"
    using ls by (simp add: gap_disk_def)
  have t2: "\<forall>p\<in>set periods. \<forall>f. timeline_files gap_disk (timeline_path p) = Some f
              \<longrightarrow> loadable_timeline f"
    using lt paths_distinct by (simp add: gap_disk_def periods_def)
  have gap: "timeline_files gap_disk (timeline_path ''prior_2mo'') = None"
    using paths_distinct by (simp add: gap_disk_def)
  then have "\<exists>p\<in>set periods. timeline_files gap_disk (timeline_path p) = None"
    by (simp add: periods_def)
  with load_backtest_data_outcome[OF s2 t2]
  have r2: "load_backtest_data gap_disk = Inl FileNotFoundError" by simp
  have "\<not> (summary_files demo_disk summary_path = None \<or>
          (\<exists>p\<in>set periods. timeline_files demo_disk (timeline_path p) = None))"
    using paths_distinct by (simp add: demo_disk_def periods_def)
  with load_backtest_data_outcome[OF s1 t1]
  have "\<exists>summary_df timelines. load_backtest_data demo_disk = Inr (summary_df, timelines)"
    by auto
  with load_demo have r1: "load_backtest_data demo_disk = Inr (demo_summary, demo_loaded)"
    by (simp add: demo_loaded_def)
  from ls lt r1 gap r2 show ?thesis by (intro conjI)
qed

subsection \<open>C4: cumulative PnL\<close>

text \<open>
  Claim C4: at every row of the selected period's timeline the cumulative PnL is the
  forward-filled equity of that row minus the initial capital of the period, taken from
  the first row of the summary for that period.
\<close>

theorem cum_pnl_is_equity_minus_capital:
  assumes r: "render summary_df timelines name = Inr pg"
    and s: "period_options name = Some sel"
    and t: "timelines sel = Some tdf"
  shows "\<exists>ps. find (\<lambda>r. period r = sel) (records summary_df) = Some ps \<and>
           length (pg_cum_pnl pg) = length (records tdf) \<and>
           (\<forall>i<length (records tdf).
              pg_cum_pnl pg ! i = fsub (ffill (map equity (records tdf)) ! i) (initial_capital ps))"
proof -
  note st = render_Inr_steps[OF r s t]
  let ?ps = "pg_summary pg"
  from st(1) have f: "find (\<lambda>r. period r = sel) (records summary_df) = Some ?ps"
    by (simp add: period_summary_Inr)
  from st(2) have c: "pg_initial_capital pg = initial_capital ?ps" by (simp add: row_getitem_Inr)
  have len: "length (ffill (map equity (records tdf))) = length (records tdf)"
    by (simp add: ffill_def ffill_from_length)
  from st(5) c len have 1: "length (pg_cum_pnl pg) = length (records tdf)"
    by (simp add: cum_pnl_def)
  from st(5) c len have 2: "\<forall>i<length (records tdf).
      pg_cum_pnl pg ! i = fsub (ffill (map equity (records tdf)) ! i) (initial_capital ?ps)"
    by (simp add: cum_pnl_def)
  from f 1 2 show ?thesis by blast
qed

text \<open>On the demo data the second bar has no equity; it is filled from the first.\<close>

theorem cum_pnl_is_equity_minus_capital_witness:
  "render demo_summary demo_loaded ''Last Month'' = Inr demo_page \<and>
   period_options ''Last Month'' = Some ''last_month'' \<and>
   demo_loaded ''last_month'' = Some demo_trimmed \<and>
   find (\<lambda>r. period r = ''last_month'') (records demo_summary) = Some (summary_of ''last_month'' 1000) \<and>
   ffill (map equity (records demo_trimmed)) = [Some 1000, Some 1000, Some 1010] \<and>
   pg_cum_pnl demo_page ! 2 = fsub (Some 1010) (Some 1000)"
proof -
  note h = render_demo period_option_last_month demo_loaded_last_month
  have f: "find (\<lambda>r. period r = ''last_month'') (records demo_summary) = Some (summary_of ''last_month'' 1000)"
    by (simp add: demo_summary_def summary_of_def)
  have e: "ffill (map equity (records demo_trimmed)) = [Some 1000, Some 1000, Some 1010]"
    by (simp add: demo_trimmed_def demo_bars_def bar_def ffill_def)
  have c: "initial_capital (summary_of ''last_month'' 1000) = Some 1000" by (simp add: summary_of_def)
  have l: "(2::nat) < length (records demo_trimmed)" by (simp add: demo_trimmed_def demo_bars_def)
  from cum_pnl_is_equity_minus_capital[OF h] f e c l
  have "pg_cum_pnl demo_page ! 2 = fsub (Some 1010) (Some 1000)" by force
  with h f e show ?thesis by (intro conjI)
qed

subsection \<open>C5: the trade log\<close>

text \<open>
  Claim C5: the trade log on display holds exactly the rows of the selected timeline
  with the entry or the exit flag set, in their order: a row of the timeline is in it if
  and only if one of its flags is set.
\<close>

theorem trade_log_shows_flagged_rows:
  assumes r: "render summary_df timelines name = Inr pg"
    and s: "period_options name = Some sel"
    and t: "timelines sel = Some tdf"
  shows "shown_rows (pg_trade_log pg) = filter (\<lambda>r. is_entry r \<or> is_exit r) (records tdf) \<and>
         (\<forall>i<length (records tdf).
            records tdf ! i \<in> set (shown_rows (pg_trade_log pg)) \<longleftrightarrow>
              is_entry (records tdf ! i) \<or> is_exit (records tdf ! i))"
proof -
  note st = render_Inr_steps[OF r s t]
  from st(16) have 1: "shown_rows (pg_trade_log pg) = filter (\<lambda>r. is_entry r \<or> is_exit r) (records tdf)"
    by (simp add: shown_rows_show)
  then show ?thesis by simp
qed

text \<open>On the demo data: the entry bar and the exit bar, not the bar between them.\<close>

theorem trade_log_shows_flagged_rows_witness:
  "render demo_summary demo_loaded ''Last Month'' = Inr demo_page \<and>
   period_options ''Last Month'' = Some ''last_month'' \<and>
   demo_loaded ''last_month'' = Some demo_trimmed \<and>
   shown_rows (pg_trade_log demo_page) =
     [bar 86400000000000 (Some 1000) 500 1 True False,
      bar 172800000000000 (Some 1010) 300 0 False True]"
proof -
  note h = render_demo period_option_last_month demo_loaded_last_month
  have "filter (\<lambda>r. is_entry r \<or> is_exit r) (records demo_trimmed) =
     [bar 86400000000000 (Some 1000) 500 1 True False,
      bar 172800000000000 (Some 1010) 300 0 False True]"
    by (simp add: demo_trimmed_def demo_bars_def bar_def)
  with trade_log_shows_flagged_rows[OF h]
  have "shown_rows (pg_trade_log demo_page) =
     [bar 86400000000000 (Some 1000) 500 1 True False,
      bar 172800000000000 (Some 1010) 300 0 False True]"
    by simp
  with h show ?thesis by (intro conjI)
qed

subsection \<open>C6: percent change and rolling volatility\<close>

text \<open>
  Claim C6 says that the percent change is 0 at the first row and
  \<open>(equity[t] - equity[t-1]) / equity[t-1]\<close> on the forward-filled equity at every later
  row, and that the rolling volatility at row \<open>t\<close> is the standard deviation of the
  percent changes over the 30 most recent rows ending at \<open>t\<close>. As amended: the percent
  change is 0 at the first row and that quotient at every later row whose two equities
  are present, the earlier one not zero; the rolling volatility is missing (NaN) at each
  of the first 29 rows and, from the 30th row on, it is the standard deviation with
  divisor 29 of the 30 percent changes ending at the row, when these are all numbers.
\<close>

theorem pct_change_and_rolling_volatility:
  assumes r: "render summary_df timelines name = Inr pg"
    and s: "period_options name = Some sel"
    and t: "timelines sel = Some tdf"
  shows "length (pg_pct_change pg) = length (records tdf) \<and>
         length (pg_vol_rolling pg) = length (records tdf) \<and>
         (records tdf \<noteq> [] \<longrightarrow> pg_pct_change pg ! 0 = Fin 0) \<and>
         (\<forall>i p c. 0 < i \<and> i < length (records tdf) \<and>
              ffill (map equity (records tdf)) ! (i - 1) = Some p \<and> p \<noteq> 0 \<and>
              ffill (map equity (records tdf)) ! i = Some c
            \<longrightarrow> pg_pct_change pg ! i = Fin ((c - p) / p)) \<and>
         (\<forall>i<length (records tdf). i < 29 \<longrightarrow> pg_vol_rolling pg ! i = NaN) \<and>
         (\<forall>i xs. 29 \<le> i \<and> i < length (records tdf) \<and>
              take 30 (drop (i - 29) (pg_pct_change pg)) = map Fin xs
            \<longrightarrow> pg_vol_rolling pg ! i = Fin (sample_std xs))"
proof -
  note st = render_Inr_steps[OF r s t]
  let ?eq = "ffill (map equity (records tdf))"
  let ?n = "length (records tdf)"
  have leq: "length ?eq = ?n" by (simp add: ffill_def ffill_from_length)
  have pc: "pg_pct_change pg = fillna0_cells (pct_change ?eq)" by (rule st(18))
  have vr: "pg_vol_rolling pg = rolling_std 30 (pg_pct_change pg)" by (rule st(19))
  have 1: "length (pg_pct_change pg) = ?n"
    by (simp add: pc fillna0_cells_length pct_change_length leq)
  have 2: "length (pg_vol_rolling pg) = ?n"
    by (simp add: vr rolling_std_length 1)
  have 3: "pg_pct_change pg ! 0 = Fin 0" if "records tdf \<noteq> []"
  proof -
    from that leq have ne: "?eq \<noteq> []" by auto
    then have "0 < length (pct_change ?eq)" by (simp add: pct_change_length)
    then show ?thesis
      by (simp add: pc fillna0_cells_nth pct_change_0[OF ne])
  qed
  have 4: "pg_pct_change pg ! i = Fin ((c - p) / p)"
    if "0 < i" "i < ?n" "?eq ! (i - 1) = Some p" "p \<noteq> 0" "?eq ! i = Some c" for i p c
  proof -
    from that(1) obtain j where j: "i = Suc j" by (cases i) auto
    from that(2) j leq have lt: "Suc j < length ?eq" by simp
    from pct_change_Suc[OF lt] that(3,5) j
    have "pct_change ?eq ! i = pct_step (Some p) (Some c)" by simp
    with that(4) have "pct_change ?eq ! i = Fin ((c - p) / p)" by (simp add: pct_step_ratio)
    moreover from that(2) leq have "i < length (pct_change ?eq)" by (simp add: pct_change_length)
    ultimately show ?thesis by (simp add: pc fillna0_cells_nth)
  qed
  have 5: "pg_vol_rolling pg ! i = NaN" if "i < ?n" "i < 29" for i
    using that 1 by (simp add: vr rolling_std_early)
  have 6: "pg_vol_rolling pg ! i = Fin (sample_std xs)"
    if "29 \<le> i" "i < ?n" "take 30 (drop (i - 29) (pg_pct_change pg)) = map Fin xs" for i xs
  proof -
    from that(2) 1 have a: "i < length (pg_pct_change pg)" by simp
    from that(1) have b: "(30::nat) \<le> i + 1" and c: "i + 1 - 30 = i - 29" by simp_all
    from that(3) c have d: "take 30 (drop (i + 1 - 30) (pg_pct_change pg)) = map Fin xs" by simp
    have "rolling_std 30 (pg_pct_change pg) ! i = Fin (sample_std xs)"
      by (rule rolling_std_full[OF a b _ d]) simp
    then show ?thesis by (simp add: vr)
  qed
  from 1 2 3 4 5 6 show ?thesis by blast
qed

text \<open>
  The claim as stated fails at every row before the 30th: the demo timeline has three
  rows, their percent changes are numbers, and the rolling volatility is NaN at all
  three rows, where the claim gives it the standard deviation of the rows so far.
\<close>

theorem rolling_volatility_missing_before_row_30:
  "map_sum id pg_pct_change (dashboard demo_disk ''Last Month'') = Inr [Fin 0, Fin 0, Fin (1 / 100)] \<and>
   map_sum id pg_vol_rolling (dashboard demo_disk ''Last Month'') = Inr [NaN, NaN, NaN] \<and>
   map_sum id (\<lambda>pg. pg_vol_rolling pg ! 2) (dashboard demo_disk ''Last Month'')
     \<noteq> Inr (Fin (sample_std [0, 0, 1 / 100]))"
proof -
  have "load_backtest_data demo_disk = Inr (demo_summary, demo_loaded)"
    using load_demo by (simp add: demo_loaded_def)
  then have "dashboard demo_disk ''Last Month'' = Inr demo_page"
    by (simp add: dashboard_def render_demo)
  then show ?thesis by (simp add: demo_page_def)
qed

text \<open>
  The amended statement on thirty bars: the jump of the last bar is a change of one
  tenth, row 29 is still missing and row 30 has the deviation of the thirty changes.
\<close>

theorem pct_change_and_rolling_volatility_witness:
  "render demo_summary steady_loaded ''Last Month'' = Inr steady_page \<and>
   period_options ''Last Month'' = Some ''last_month'' \<and>
   steady_loaded ''last_month'' = Some steady_timeline \<and>
   length (records steady_timeline) = 30 \<and>
   ffill (map equity (records steady_timeline)) ! 28 = Some 100 \<and>
   ffill (map equity (records steady_timeline)) ! 29 = Some 110 \<and>
   pg_pct_change steady_page ! 0 = Fin 0 \<and>
   pg_pct_change steady_page ! 29 = Fin ((110 - 100) / 100) \<and>
   pg_vol_rolling steady_page ! 28 = NaN \<and>
   take 30 (drop (29 - 29) (pg_pct_change steady_page)) = map Fin (replicate 29 0 @ [1 / 10]) \<and>
   pg_vol_rolling steady_page ! 29 = Fin (sample_std (replicate 29 0 @ [1 / 10])) \<and>
   sample_std (replicate 29 0 @ [1 / 10]) = sqrt (1 / 3000)"
proof -
  note h = render_steady period_option_last_month steady_loaded_last_month
  note inst = pct_change_and_rolling_volatility[OF h]
  have n: "length (records steady_timeline) = 30"
    by (simp add: steady_timeline_def steady_bars_def)
  have e28: "ffill (map equity (records steady_timeline)) ! 28 = Some 100"
    and e29: "ffill (map equity (records steady_timeline)) ! 29 = Some 110"
    by (simp_all add: steady_equity nth_append)
  have ne: "records steady_timeline \<noteq> []" using n by auto
  note zero = inst[THEN conjunct2, THEN conjunct2, THEN conjunct1, rule_format]
  note step = inst[THEN conjunct2, THEN conjunct2, THEN conjunct2, THEN conjunct1, rule_format,
      of 29 100 110]
  note early = inst[THEN conjunct2, THEN conjunct2, THEN conjunct2, THEN conjunct2,
      THEN conjunct1, rule_format, of 28]
  note full = inst[THEN conjunct2, THEN conjunct2, THEN conjunct2, THEN conjunct2,
      THEN conjunct2, rule_format, of 29 "replicate 29 0 @ [1 / 10]"]
  from zero[OF ne] have p0: "pg_pct_change steady_page ! 0 = Fin 0" .
  from step n e28 e29 have p29: "pg_pct_change steady_page ! 29 = Fin ((110 - 100) / 100)"
    by simp
  from early n have v28: "pg_vol_rolling steady_page ! 28 = NaN" by simp
  from render_Inr_steps(18)[OF h]
  have pc: "pg_pct_change steady_page = map Fin (replicate 29 0 @ [1 / 10])"
    by (simp only: steady_equity steady_pct)
  then have w: "take 30 (drop (29 - 29) (pg_pct_change steady_page)) = map Fin (replicate 29 0 @ [1 / 10])"
    by simp
  from full n w have v29: "pg_vol_rolling steady_page ! 29 = Fin (sample_std (replicate 29 0 @ [1 / 10]))"
    by simp
  from h n e28 e29 p0 p29 v28 w v29 steady_std show ?thesis by (intro conjI)
qed

subsection \<open>C7: daily volume\<close>

text \<open>
  Claim C7: the daily volume has one entry for each calendar date that occurs in the
  index of the selected timeline and for no other date, in date order, and the entry of
  a date is the sum of \<^verbatim>\<open>volume_usd\<close> over the rows of that date (a missing volume adds
  nothing).
\<close>

theorem daily_volume_sums_by_date:
  assumes r: "render summary_df timelines name = Inr pg"
    and s: "period_options name = Some sel"
    and t: "timelines sel = Some tdf"
  shows "set (map fst (pg_daily_volume pg)) = (\<lambda>r. date_of (idx r)) ` set (records tdf) \<and>
         distinct (map fst (pg_daily_volume pg)) \<and>
         sorted (map fst (pg_daily_volume pg)) \<and>
         (\<forall>d\<in>set (map fst (pg_daily_volume pg)).
            map_of (pg_daily_volume pg) d =
              Some (sum_list (map (\<lambda>r. nan_to_zero (volume_usd r))
                               (filter (\<lambda>r. date_of (idx r) = d) (records tdf)))))"
proof -
  note st = render_Inr_steps[OF r s t]
  from st(10) show ?thesis by (rule daily_volume_props)
qed

text \<open>On the demo data: two dates; the first sums the volumes of two bars.\<close>

theorem daily_volume_sums_by_date_witness:
  "render demo_summary demo_loaded ''Last Month'' = Inr demo_page \<and>
   period_options ''Last Month'' = Some ''last_month'' \<and>
   demo_loaded ''last_month'' = Some demo_trimmed \<and>
   map fst (pg_daily_volume demo_page) = [1, 2] \<and>
   map_of (pg_daily_volume demo_page) 1 = Some (500 + 0)"
proof -
  note h = render_demo period_option_last_month demo_loaded_last_month
  have k: "map fst (pg_daily_volume demo_page) = [1, 2]" by (simp add: demo_page_def)
  have "sum_list (map (\<lambda>r. nan_to_zero (volume_usd r))
           (filter (\<lambda>r. date_of (idx r) = 1) (records demo_trimmed))) = 500 + 0"
    by (simp add: demo_trimmed_def demo_bars_def bar_def date_of_def nan_to_zero_def)
  with daily_volume_sums_by_date[OF h] k
  have "map_of (pg_daily_volume demo_page) 1 = Some (500 + 0)" by simp
  with h k show ?thesis by (intro conjI)
qed

subsection \<open>C8: missing columns\<close>

text \<open>
  Claim C8 says that every missing expected column, those of the trade-log display
  included, ends the rendering pass with an error. As amended: the pass fails when a
  column it reads by name is absent (\<^verbatim>\<open>equity\<close>, \<^verbatim>\<open>volume_usd\<close>, \<^verbatim>\<open>signal\<close>, \<^verbatim>\<open>is_entry\<close>,
  \<^verbatim>\<open>is_exit\<close> of the selected timeline; \<^verbatim>\<open>period\<close>, \<^verbatim>\<open>initial_capital\<close>, \<^verbatim>\<open>start_date\<close>,
  \<^verbatim>\<open>end_date\<close>, \<^verbatim>\<open>rows\<close> and the twelve metric columns of the summary); whether it fails
  does not depend on any other column of the timeline, so the absence of \<^verbatim>\<open>price\<close>,
  \<^verbatim>\<open>qty\<close> or \<^verbatim>\<open>pnl\<close>, which only the trade-log display lists, is tolerated; and the
  trade log of a completed pass is shown under those of the eight display columns that
  the timeline has, in the display order.
\<close>

theorem render_column_dependence:
  assumes s: "period_options name = Some sel"
    and t: "timelines sel = Some tdf"
  shows "((\<exists>c\<in>set read_timeline_columns. c \<notin> set (columns tdf)) \<or>
          (\<exists>c\<in>set read_summary_columns. c \<notin> set (columns summary_df))
            \<longrightarrow> isl (render summary_df timelines name)) \<and>
         (\<forall>tdf' :: timeline_row dataframe. records tdf' = records tdf \<and>
                 (\<forall>c\<in>set read_timeline_columns. (c \<in> set (columns tdf')) = (c \<in> set (columns tdf)))
            \<longrightarrow> isl (render summary_df (timelines(sel \<mapsto> tdf')) name)
                  = isl (render summary_df timelines name)) \<and>
         (\<forall>pg. render summary_df timelines name = Inr pg
            \<longrightarrow> pg_trade_log pg =
                  (if filter (\<lambda>r. is_entry r \<or> is_exit r) (records tdf) = [] then No_Trades
                   else Trade_Table (filter (\<lambda>c. c \<in> set (columns tdf)) display_cols)
                          (filter (\<lambda>r. is_entry r \<or> is_exit r) (records tdf))))"
proof (intro conjI allI impI)
  fix pg
  assume r: "render summary_df timelines name = Inr pg"
  from render_Inr_steps(16)[OF r s t]
  show "pg_trade_log pg =
          (if filter (\<lambda>r. is_entry r \<or> is_exit r) (records tdf) = [] then No_Trades
           else Trade_Table (filter (\<lambda>c. c \<in> set (columns tdf)) display_cols)
                  (filter (\<lambda>r. is_entry r \<or> is_exit r) (records tdf)))"
    by (simp only: show_trade_log_def available_cols_def)
next
  assume missing: "(\<exists>c\<in>set read_timeline_columns. c \<notin> set (columns tdf)) \<or>
          (\<exists>c\<in>set read_summary_columns. c \<notin> set (columns summary_df))"
  show "isl (render summary_df timelines name)"
  proof (cases "render summary_df timelines name")
    case (Inl e) then show ?thesis by simp
  next
    case (Inr pg)
    from render_columns_present[OF Inr s t] missing show ?thesis by blast
  qed
next
  fix tdf' :: "timeline_row dataframe"
  assume a: "records tdf' = records tdf \<and>
     (\<forall>c\<in>set read_timeline_columns. (c \<in> set (columns tdf')) = (c \<in> set (columns tdf)))"
  let ?upd = "timelines(sel \<mapsto> tdf')"
  have undo: "?upd(sel \<mapsto> tdf) = timelines" using t by (simp add: map_upd_triv)
  have fwd: "\<exists>pg'. render summary_df ?upd name = Inr pg'"
    if "render summary_df timelines name = Inr pg" for pg
    using render_other_columns[OF that s t] a by blast
  have bwd: "\<exists>pg. render summary_df timelines name = Inr pg"
    if r': "render summary_df ?upd name = Inr pg'" for pg'
  proof -
    have t': "?upd sel = Some tdf'" by simp
    from a have "records tdf = records tdf'"
      and "\<forall>c\<in>set read_timeline_columns. (c \<in> set (columns tdf)) = (c \<in> set (columns tdf'))"
      by simp_all
    from render_other_columns[OF r' s t' this]
    have "\<exists>pg. render summary_df (?upd(sel \<mapsto> tdf)) name = Inr pg" .
    then show ?thesis by (simp only: undo)
  qed
  show "isl (render summary_df ?upd name) = isl (render summary_df timelines name)"
  proof (cases "render summary_df timelines name")
    case (Inl e)
    with bwd have "isl (render summary_df ?upd name)"
      by (cases "render summary_df ?upd name") auto
    with Inl show ?thesis by simp
  next
    case (Inr pg)
    from fwd[OF Inr] Inr show ?thesis by auto
  qed
qed

text \<open>
  The claim as stated fails on a timeline without the \<^verbatim>\<open>price\<close> column: the script
  completes and shows the trade log with the seven columns that exist.
\<close>

theorem render_tolerates_missing_price:
  "''price'' \<in> set display_cols \<and>
   ''price'' \<notin> set (columns priceless_timeline) \<and>
   timeline_files priceless_disk (timeline_path ''last_month'') = Some (CSV priceless_timeline []) \<and>
   map_sum id pg_trade_log (dashboard priceless_disk ''Last Month'') =
     Inr (Trade_Table [''signal'', ''qty'', ''pnl'', ''equity'', ''volume_usd'', ''is_entry'', ''is_exit'']
            [(bar 86400000000000 (Some 1000) 500 1 True False)\<lparr>price := None\<rparr>,
             (bar 172800000000000 (Some 1010) 300 0 False True)\<lparr>price := None\<rparr>])"
proof -
  have 1: "''price'' \<in> set display_cols" by (simp add: display_cols_def)
  have 2: "''price'' \<notin> set (columns priceless_timeline)" by (simp add: priceless_timeline_def)
  have 3: "timeline_files priceless_disk (timeline_path ''last_month'') = Some (CSV priceless_timeline [])"
    using paths_distinct by (simp add: priceless_disk_def)
  have t: "trim_warmup [] priceless_timeline =
      Inr (priceless_timeline\<lparr>records := map (\<lambda>r. r\<lparr>price := None\<rparr>) demo_bars\<rparr>)"
    by (simp add: trim_warmup_def getitem_def gt_zero_col_def idxmax_def argmax_def loc_from_def
        timestamp_bool_def priceless_timeline_def demo_timeline_def demo_bars_def bar_def
        gt_zero_def)
  have l: "load_backtest_data priceless_disk =
      Inr (demo_summary,
           [''last_month'' \<mapsto> priceless_timeline\<lparr>records := map (\<lambda>r. r\<lparr>price := None\<rparr>) demo_bars\<rparr>,
            ''full_3mo'' \<mapsto> demo_trimmed, ''prior_2mo'' \<mapsto> demo_trimmed])"
    using paths_distinct
    by (simp add: load_backtest_data_def priceless_disk_def read_csv_def to_datetime_col_def
        getitem_def periods_def trim_demo t demo_summary_def summary_columns_def)
  have 4: "map_sum id pg_trade_log (dashboard priceless_disk ''Last Month'') =
     Inr (Trade_Table [''signal'', ''qty'', ''pnl'', ''equity'', ''volume_usd'', ''is_entry'', ''is_exit'']
            [(bar 86400000000000 (Some 1000) 500 1 True False)\<lparr>price := None\<rparr>,
             (bar 172800000000000 (Some 1010) 300 0 False True)\<lparr>price := None\<rparr>])"
    by (simp add: dashboard_def l render_defs demo_defs priceless_timeline_def)
  from 1 2 3 4 show ?thesis by (intro conjI)
qed

text \<open>
  The amended statement on the demo data: without \<^verbatim>\<open>signal\<close> the pass fails, without
  \<^verbatim>\<open>price\<close> it completes.
\<close>

theorem render_column_dependence_witness:
  "period_options ''Last Month'' = Some ''last_month'' \<and>
   ''signal'' \<in> set read_timeline_columns \<and>
   ''signal'' \<notin> set (columns unsignalled) \<and>
   isl (render demo_summary [''last_month'' \<mapsto> unsignalled] ''Last Month'') \<and>
   records unpriced = records demo_trimmed \<and>
   ''price'' \<notin> set (columns unpriced) \<and>
   \<not> isl (render demo_summary (demo_loaded(''last_month'' \<mapsto> unpriced)) ''Last Month'') \<and>
   (\<exists>pg. render demo_summary (demo_loaded(''last_month'' \<mapsto> unpriced)) ''Last Month'' = Inr pg \<and>
      pg_trade_log pg =
        Trade_Table [''signal'', ''qty'', ''pnl'', ''equity'', ''volume_usd'', ''is_entry'', ''is_exit'']
          [bar 86400000000000 (Some 1000) 500 1 True False,
           bar 172800000000000 (Some 1010) 300 0 False True])"
proof -
  note h = period_option_last_month
  have u: "[''last_month'' \<mapsto> unsignalled] ''last_month'' = Some unsignalled" by simp
  have 1: "''signal'' \<in> set read_timeline_columns" by (simp add: read_timeline_columns_def)
  have 2: "''signal'' \<notin> set (columns unsignalled)" by (simp add: unsignalled_def)
  from 1 2 have "\<exists>c\<in>set read_timeline_columns. c \<notin> set (columns unsignalled)" by blast
  with render_column_dependence[where timelines = "[''last_month'' \<mapsto> unsignalled]"
      and summary_df = demo_summary, OF h u]
  have 3: "isl (render demo_summary [''last_month'' \<mapsto> unsignalled] ''Last Month'')" by blast
  have 4: "records unpriced = records demo_trimmed" by (simp add: unpriced_def demo_trimmed_def)
  have 5: "''price'' \<notin> set (columns unpriced)" by (simp add: unpriced_def)
  have 6: "\<forall>c\<in>set read_timeline_columns. (c \<in> set (columns unpriced)) = (c \<in> set (columns demo_trimmed))"
    by (simp add: read_timeline_columns_def unpriced_def demo_trimmed_def timeline_columns_def)
  from render_column_dependence[where timelines = demo_loaded and summary_df = demo_summary,
      OF h demo_loaded_last_month] 4 6
  have "isl (render demo_summary (demo_loaded(''last_month'' \<mapsto> unpriced)) ''Last Month'')
          = isl (render demo_summary demo_loaded ''Last Month'')" by blast
  with render_demo have 7: "\<not> isl (render demo_summary (demo_loaded(''last_month'' \<mapsto> unpriced)) ''Last Month'')"
    by simp
  then obtain pg where r: "render demo_summary (demo_loaded(''last_month'' \<mapsto> unpriced)) ''Last Month'' = Inr pg"
    by (cases "render demo_summary (demo_loaded(''last_month'' \<mapsto> unpriced)) ''Last Month''") auto
  have v: "(demo_loaded(''last_month'' \<mapsto> unpriced)) ''last_month'' = Some unpriced" by simp
  note shown = render_column_dependence[where timelines = "demo_loaded(''last_month'' \<mapsto> unpriced)"
      and summary_df = demo_summary, OF h v, THEN conjunct2, THEN conjunct2, rule_format, OF r]
  have "pg_trade_log pg =
        Trade_Table [''signal'', ''qty'', ''pnl'', ''equity'', ''volume_usd'', ''is_entry'', ''is_exit'']
          [bar 86400000000000 (Some 1000) 500 1 True False,
           bar 172800000000000 (Some 1010) 300 0 False True]"
    unfolding shown by (simp add: unpriced_def display_cols_def demo_bars_def bar_def)
  with r have 8: "\<exists>pg. render demo_summary (demo_loaded(''last_month'' \<mapsto> unpriced)) ''Last Month'' = Inr pg \<and>
      pg_trade_log pg =
        Trade_Table [''signal'', ''qty'', ''pnl'', ''equity'', ''volume_usd'', ''is_entry'', ''is_exit'']
          [bar 86400000000000 (Some 1000) 500 1 True False,
           bar 172800000000000 (Some 1010) 300 0 False True]"
    by blast
  from h 1 2 3 4 5 7 8 show ?thesis by (intro conjI)
qed

subsection \<open>C9: the trim keeps a suffix\<close>

text \<open>
  Claim C9: each timeline the loader returns is a contiguous suffix of the table read
  from its file, rows unchanged and in order, under the same columns.
\<close>

theorem load_timeline_is_suffix:
  assumes "load_backtest_data fs = Inr (summary_df, timelines)" and "p \<in> set periods"
  shows "\<exists>raw tcols out. timeline_files fs (timeline_path p) = Some (CSV raw tcols) \<and>
           timelines p = Some out \<and>
           suffix (records out) (records raw) \<and> columns out = columns raw"
proof -
  from load_backtest_data_Inr[OF assms(1)]
  have "load_timelines fs periods Map.empty = Inr timelines" by simp
  from load_timelines_member[OF this assms(2)] obtain raw tcols out where
    r: "timeline_files fs (timeline_path p) = Some (CSV raw tcols)"
    and t: "trim_warmup tcols raw = Inr out"
    and o: "timelines p = Some out" by blast
  from trim_warmup_suffix[OF t] r o show ?thesis by blast
qed

text \<open>On the demo store.\<close>

theorem load_timeline_is_suffix_witness:
  "load_backtest_data demo_disk = Inr (demo_summary, demo_loaded) \<and>
   ''last_month'' \<in> set periods \<and>
   (\<exists>raw tcols out. timeline_files demo_disk (timeline_path ''last_month'') = Some (CSV raw tcols) \<and>
      demo_loaded ''last_month'' = Some out \<and>
      suffix (records out) (records raw) \<and> columns out = columns raw)"
proof -
  have h1: "load_backtest_data demo_disk = Inr (demo_summary, demo_loaded)"
    using load_demo by (simp add: demo_loaded_def)
  have h2: "''last_month'' \<in> set periods" by (simp add: periods_def)
  from h1 h2 load_timeline_is_suffix[OF h1 h2] show ?thesis by (intro conjI)
qed

subsection \<open>C10: the summary row of the selected period\<close>

text \<open>
  Claim C10: with a \<^verbatim>\<open>period\<close> column in the summary, the pass fails with \<open>IndexError\<close>
  when no row of the summary has the selected period. Otherwise the first such row is
  the one selected; the pass then renders a page exactly when the columns it reads are
  there, the two dates of that row are not blank and every period of the summary has a
  display name; and every page it renders takes its initial capital, dates, row count
  and metrics from that row.
\<close>

theorem render_uses_first_matching_row:
  assumes s: "period_options name = Some sel"
    and t: "timelines sel = Some tdf"
    and c: "''period'' \<in> set (columns summary_df)"
  shows "case find (\<lambda>r. period r = sel) (records summary_df) of
           None \<Rightarrow> render summary_df timelines name = Inl IndexError
         | Some row \<Rightarrow>
             period_summary summary_df sel = Inr row \<and>
             ((\<exists>pg. render summary_df timelines name = Inr pg) \<longleftrightarrow>
                (\<forall>c\<in>set read_timeline_columns. c \<in> set (columns tdf)) \<and>
                (\<forall>c\<in>set read_summary_columns. c \<in> set (columns summary_df)) \<and>
                start_date row \<noteq> None \<and> end_date row \<noteq> None \<and>
                (\<forall>r\<in>set (records summary_df). period_names (period r) \<noteq> None)) \<and>
             (\<forall>pg. render summary_df timelines name = Inr pg \<longrightarrow>
                pg_summary pg = row \<and>
                pg_initial_capital pg = initial_capital row \<and>
                start_date row = Some (pg_start pg) \<and>
                end_date row = Some (pg_end pg) \<and>
                pg_rows pg = rows row \<and>
                pg_metrics pg = map (\<lambda>(title, name, field). (title, field row)) metric_columns)"
proof (cases "find (\<lambda>r. period r = sel) (records summary_df)")
  case None
  with c have "period_summary summary_df sel = Inl IndexError"
    by (simp add: period_summary_find)
  with s t have "render summary_df timelines name = Inl IndexError"
    by (simp add: render_def dict_get_def)
  with None show ?thesis by simp
next
  case (Some row)
  with c have ps: "period_summary summary_df sel = Inr row"
    by (simp add: period_summary_find)
  have used: "\<forall>pg. render summary_df timelines name = Inr pg \<longrightarrow>
        pg_summary pg = row \<and>
        pg_initial_capital pg = initial_capital row \<and>
        start_date row = Some (pg_start pg) \<and>
        end_date row = Some (pg_end pg) \<and>
        pg_rows pg = rows row \<and>
        pg_metrics pg = map (\<lambda>(title, name, field). (title, field row)) metric_columns"
  proof (intro allI impI)
    fix pg
    assume r: "render summary_df timelines name = Inr pg"
    note st = render_Inr_steps[OF r s t]
    from st(1) ps have 1: "pg_summary pg = row" by simp
    from st(2) 1 have 2: "pg_initial_capital pg = initial_capital row" by (simp add: row_getitem_Inr)
    from st(6) 1 have 3: "start_date row = Some (pg_start pg)" by (simp add: row_getitem_Inr)
    from st(7) 1 have 4: "end_date row = Some (pg_end pg)" by (simp add: row_getitem_Inr)
    from st(8) 1 have 5: "pg_rows pg = rows row" by (simp add: row_getitem_Inr)
    from read_metrics_Inr[OF st(9)]
    have "pg_metrics pg = map (\<lambda>(title, name, field). (title, field (pg_summary pg))) metric_columns"
      by (rule conjunct2)
    with 1 have 6: "pg_metrics pg = map (\<lambda>(title, name, field). (title, field row)) metric_columns"
      by (simp only:)
    from 1 2 3 4 5 6
    show "pg_summary pg = row \<and>
        pg_initial_capital pg = initial_capital row \<and>
        start_date row = Some (pg_start pg) \<and>
        end_date row = Some (pg_end pg) \<and>
        pg_rows pg = rows row \<and>
        pg_metrics pg = map (\<lambda>(title, name, field). (title, field row)) metric_columns"
      by (intro conjI)
  qed
  let ?ok = "(\<forall>c\<in>set read_timeline_columns. c \<in> set (columns tdf)) \<and>
                (\<forall>c\<in>set read_summary_columns. c \<in> set (columns summary_df)) \<and>
                start_date row \<noteq> None \<and> end_date row \<noteq> None \<and>
                (\<forall>r\<in>set (records summary_df). period_names (period r) \<noteq> None)"
  have completes: "(\<exists>pg. render summary_df timelines name = Inr pg) \<longleftrightarrow> ?ok"
  proof
    assume "\<exists>pg. render summary_df timelines name = Inr pg"
    then obtain pg where r: "render summary_df timelines name = Inr pg" ..
    from render_columns_present[OF r s t]
    have a: "\<forall>c\<in>set read_timeline_columns. c \<in> set (columns tdf)"
      and b: "\<forall>c\<in>set read_summary_columns. c \<in> set (columns summary_df)" by simp_all
    from used r have d: "start_date row \<noteq> None" and e: "end_date row \<noteq> None" by simp_all
    from render_Inr_comparison[OF r]
    have "comparison_loop (columns summary_df) (records summary_df) [] = Inr (pg_comparison pg)"
      by (simp add: comparison_df_def)
    then have f: "\<forall>r\<in>set (records summary_df). period_names (period r) \<noteq> None"
      by (rule comparison_loop_periods)
    from a b d e f show ?ok by (intro conjI)
  next
    assume ok: ?ok
    then have a: "\<forall>c\<in>set read_timeline_columns. c \<in> set (columns tdf)"
      and b: "\<forall>c\<in>set read_summary_columns. c \<in> set (columns summary_df)"
      and d: "start_date row \<noteq> None" and e: "end_date row \<noteq> None"
      and f: "\<forall>r\<in>set (records summary_df). period_names (period r) \<noteq> None"
      by simp_all
    show "\<exists>pg. render summary_df timelines name = Inr pg"
      by (rule render_total[where timelines = timelines and tdf = tdf, OF s t Some a b d e f])
  qed
  from ps completes used show ?thesis unfolding Some by (simp only: option.case simp_thms)
qed

text \<open>
  On the demo summary the pass renders a page and the page holds the figures of the
  first row for the period; on a summary without a row for the period it fails; on a
  summary with two rows for the period the page holds the figures of the first.
\<close>

theorem render_uses_first_matching_row_witness:
  "period_options ''Last Month'' = Some ''last_month'' \<and>
   demo_loaded ''last_month'' = Some demo_trimmed \<and>
   ''period'' \<in> set (columns demo_summary) \<and>
   ''period'' \<in> set (columns orphan_summary) \<and>
   find (\<lambda>r. period r = ''last_month'') (records demo_summary) = Some (summary_of ''last_month'' 1000) \<and>
   period_summary demo_summary ''last_month'' = Inr (summary_of ''last_month'' 1000) \<and>
   (\<exists>pg. render demo_summary demo_loaded ''Last Month'' = Inr pg \<and>
      pg_summary pg = summary_of ''last_month'' 1000 \<and>
      pg_initial_capital pg = Some 1000 \<and>
      pg_metrics pg =
        map (\<lambda>(title, name, field). (title, field (summary_of ''last_month'' 1000))) metric_columns) \<and>
   render demo_summary demo_loaded ''Last Month'' = Inr demo_page \<and>
   find (\<lambda>r. period r = ''last_month'') (records orphan_summary) = None \<and>
   render orphan_summary demo_loaded ''Last Month'' = Inl IndexError \<and>
   ''period'' \<in> set (columns twice_summary) \<and>
   records twice_summary = [summary_of ''last_month'' 1000, summary_of ''last_month'' 2000] \<and>
   (\<exists>pg. render twice_summary demo_loaded ''Last Month'' = Inr pg \<and>
      pg_summary pg = summary_of ''last_month'' 1000 \<and>
      pg_initial_capital pg = Some 1000)"
proof -
  note h = period_option_last_month demo_loaded_last_month
  have c1: "''period'' \<in> set (columns demo_summary)"
    by (simp add: demo_summary_def summary_columns_def)
  have c2: "''period'' \<in> set (columns orphan_summary)"
    by (simp add: orphan_summary_def summary_columns_def)
  note f1 = demo_find_last_month
  have f2: "find (\<lambda>r. period r = ''last_month'') (records orphan_summary) = None"
    by (simp add: orphan_summary_def summary_of_def)
  have tc: "\<forall>c\<in>set read_timeline_columns. c \<in> set (columns demo_trimmed)"
    by (simp add: read_timeline_columns_def demo_trimmed_def timeline_columns_def)
  have dates: "start_date (summary_of ''last_month'' 1000) \<noteq> None"
    "end_date (summary_of ''last_month'' 1000) \<noteq> None"
    by (simp_all add: summary_of_def)
  have cap: "initial_capital (summary_of ''last_month'' 1000) = Some 1000"
    by (simp add: summary_of_def)
  note inst = render_uses_first_matching_row[where timelines = demo_loaded
      and summary_df = demo_summary, OF h c1]
  from inst f1 have a: "period_summary demo_summary ''last_month'' = Inr (summary_of ''last_month'' 1000)"
    by simp
  from inst f1 tc demo_summary_complete dates demo_periods_known
  have "\<exists>pg. render demo_summary demo_loaded ''Last Month'' = Inr pg" by simp
  then obtain pg where r: "render demo_summary demo_loaded ''Last Month'' = Inr pg" ..
  from inst f1 r have "pg_summary pg = summary_of ''last_month'' 1000 \<and>
      pg_initial_capital pg = initial_capital (summary_of ''last_month'' 1000) \<and>
      pg_metrics pg =
        map (\<lambda>(title, name, field). (title, field (summary_of ''last_month'' 1000))) metric_columns"
    by simp
  with r cap have b: "\<exists>pg. render demo_summary demo_loaded ''Last Month'' = Inr pg \<and>
      pg_summary pg = summary_of ''last_month'' 1000 \<and>
      pg_initial_capital pg = Some 1000 \<and>
      pg_metrics pg =
        map (\<lambda>(title, name, field). (title, field (summary_of ''last_month'' 1000))) metric_columns"
    by auto
  from render_uses_first_matching_row[where timelines = demo_loaded
      and summary_df = orphan_summary, OF h c2] f2
  have d: "render orphan_summary demo_loaded ''Last Month'' = Inl IndexError" by simp
  have c3: "''period'' \<in> set (columns twice_summary)"
    by (simp add: twice_summary_def summary_columns_def)
  have recs: "records twice_summary = [summary_of ''last_month'' 1000, summary_of ''last_month'' 2000]"
    by (simp add: twice_summary_def)
  have f3: "find (\<lambda>r. period r = ''last_month'') (records twice_summary)
              = Some (summary_of ''last_month'' 1000)"
    by (simp add: twice_summary_def summary_of_def)
  have sc: "\<forall>c\<in>set read_summary_columns. c \<in> set (columns twice_summary)"
    by (simp add: read_summary_columns_def metric_columns_def twice_summary_def summary_columns_def)
  have known: "\<forall>r\<in>set (records twice_summary). period_names (period r) \<noteq> None"
    by (simp add: twice_summary_def summary_of_def period_names_def)
  note twice = render_uses_first_matching_row[where timelines = demo_loaded
      and summary_df = twice_summary, OF h c3]
  from twice f3 tc sc dates known
  have "\<exists>pg. render twice_summary demo_loaded ''Last Month'' = Inr pg" by simp
  then obtain pg2 where r2: "render twice_summary demo_loaded ''Last Month'' = Inr pg2" ..
  from twice f3 r2 have "pg_summary pg2 = summary_of ''last_month'' 1000 \<and>
      pg_initial_capital pg2 = initial_capital (summary_of ''last_month'' 1000)"
    by simp
  with r2 cap have e: "\<exists>pg. render twice_summary demo_loaded ''Last Month'' = Inr pg \<and>
      pg_summary pg = summary_of ''last_month'' 1000 \<and>
      pg_initial_capital pg = Some 1000"
    by auto
  from h c1 c2 f1 a b render_demo f2 d c3 recs e show ?thesis by (intro conjI)
qed

end
